theory Spec2Isabelle
  imports Complex_Main "HOL-Library.Word" "HOL-Library.Finite_Map"
begin

section \<open>Data model of output/dnssim.c\<close>

text \<open>
  The engine of \<^verbatim>\<open>src/output/dnssim.c\<close> is embedded with an explicit store.  Every
  object the C code reaches through a pointer lives at an address; a pointer is an
  address, a nullable pointer an \<open>addr option\<close>.  \<^verbatim>\<open>malloc\<close> hands out the next unused
  address, \<^verbatim>\<open>free\<close> removes the object from its store and appends an entry to the
  sequence \<open>frees\<close> of all \<^verbatim>\<open>free\<close> calls made so far.  Reading an object that is no
  longer in its store is the error \<open>Use_after_free\<close>.  Allocation itself is assumed to
  succeed (the \<^verbatim>\<open>lfatal_oom\<close> macros end the process otherwise).
\<close>

type_synonym addr = nat

text \<open>A \<^verbatim>\<open>struct sockaddr_storage\<close> holding an IPv6 address.\<close>

type_synonym sockaddr = "128 word"

datatype error = Use_after_free | Null_deref | Abort_closing | Out_of_bounds | Fatal

definition then_do :: "error + 'a \<Rightarrow> ('a \<Rightarrow> error + 'b) \<Rightarrow> error + 'b" where
  "then_do m f = (case m of Inl e \<Rightarrow> Inl e | Inr x \<Rightarrow> f x)"

datatype output_dnssim_transport =
    OUTPUT_DNSSIM_TRANSPORT_UDP_ONLY
  | OUTPUT_DNSSIM_TRANSPORT_UDP
  | OUTPUT_DNSSIM_TRANSPORT_TCP
  | OUTPUT_DNSSIM_TRANSPORT_TLS

text \<open>\<^verbatim>\<open>struct _output_dnssim_source\<close>: a node of the circular list of bind addresses.\<close>

record output_dnssim_source =
  src_next :: addr
  src_addr :: sockaddr

text \<open>
  Modelled from the spec: the header \<^verbatim>\<open>output/dnssim.h\<close> that declares
  \<^verbatim>\<open>output_dnssim_stats_t\<close>, \<^verbatim>\<open>output_dnssim_client_t\<close> and the public part of
  \<^verbatim>\<open>output_dnssim_t\<close> at this revision is missing; the fields are the ones
  \<^verbatim>\<open>dnssim.c\<close> uses and the static initialisers list, the counters unsigned 64-bit
  (32-bit for a client), the three latency fields numbers that are only ever set to
  \<open>0.0\<close>.  The field \<^verbatim>\<open>next\<close> is called \<open>nxt\<close>, the field \<^verbatim>\<open>total\<close> is \<open>total_n\<close>.
\<close>

record output_dnssim_stats =
  prev :: "addr option"
  nxt :: "addr option"
  total_n :: "64 word"
  answered :: "64 word"
  noerror :: "64 word"

record output_dnssim_client =
  req_total :: "32 word"
  req_answered :: "32 word"
  req_noerror :: "32 word"
  latency_min :: real
  latency_mean :: real
  latency_max :: real

text \<open>
  \<^verbatim>\<open>struct _output_dnssim_query_udp\<close>.  The singly linked list that \<^verbatim>\<open>qry_prev\<close>
  threads through the queries of one request is the list \<open>qry\<close> of the request, head
  first; \<open>q_addr\<close> is the address of the query itself.
\<close>

record output_dnssim_query =
  q_addr :: addr
  q_transport :: output_dnssim_transport
  q_handle :: addr

text \<open>
  \<^verbatim>\<open>struct _output_dnssim_request\<close>.  \<open>client\<close> is the index of the slot of
  \<^verbatim>\<open>client_arr\<close> the pointer refers to; \<open>dns_q_id\<close> is \<^verbatim>\<open>dns_q->id\<close>.  The back pointer
  \<^verbatim>\<open>dnssim\<close> is the one engine of the model.
\<close>

record output_dnssim_request =
  qry :: "output_dnssim_query list"
  client :: nat
  payload :: addr
  dns_q :: addr
  dns_q_id :: "16 word"
  timeout :: "addr option"
  timeout_closing :: "8 word"

text \<open>
  Modelled from the spec: \<^verbatim>\<open>core/object/dns.h\<close> is missing; of a parsed DNS header
  the matcher reads \<^verbatim>\<open>id\<close>, \<^verbatim>\<open>tc\<close> and \<^verbatim>\<open>rcode\<close>, and NOERROR is response code 0.
\<close>

record core_object_dns =
  dns_id :: "16 word"
  dns_tc :: "1 word"
  dns_rcode :: "4 word"

definition CORE_OBJECT_DNS_RCODE_NOERROR :: "4 word" where
  "CORE_OBJECT_DNS_RCODE_NOERROR = 0"

text \<open>
  The part of libuv the engine relies on.  A handle is a UDP endpoint or a timer; it
  carries the \<^verbatim>\<open>data\<close> pointer (the owning request), the close callback once
  \<^verbatim>\<open>uv_close\<close> was called on it, whether it is active (a started timer, a receiving
  endpoint) and the address a UDP endpoint is bound to.
\<close>

datatype uv_handle_type = UV_UDP | UV_TIMER

datatype uv_close_cb = Cb_close_query_udp | Cb_close_request_timeout

record uv_handle =
  h_type :: uv_handle_type
  h_data :: "addr option"
  h_close_cb :: "uv_close_cb option"
  h_active :: bool
  h_bound :: "sockaddr option"

text \<open>
  One entry per \<^verbatim>\<open>free\<close> call.  The entry of a request also records the contents the
  request had when it was freed.
\<close>

datatype mem =
    Mem_request addr output_dnssim_request
  | Mem_query addr
  | Mem_handle addr
  | Mem_payload addr
  | Mem_dns addr
  | Mem_stats addr
  | Mem_source addr
  | Mem_object addr
  | Mem_buf addr
  | Mem_client_arr
  | Mem_self

text \<open>
  \<^verbatim>\<open>struct _output_dnssim\<close> together with the memory it owns: the public counters and
  settings, the private transport and source cursor, the stores of statistics
  objects, source nodes, requests and libuv handles, the handles whose close
  callback libuv still has to run (\<open>closing_handles\<close>, most recently closed first),
  the allocator's next address and the \<^verbatim>\<open>free\<close> calls made so far.  The function
  pointer \<^verbatim>\<open>create_request\<close> is passed to \<open>receive\<close> as an argument.
\<close>

record dnssim =
  processed :: "64 word"
  discarded :: "64 word"
  ongoing :: "64 word"
  stats_sum :: "addr option"
  stats_current :: "addr option"
  stats_first :: "addr option"
  max_clients :: "64 word"
  client_arr :: "output_dnssim_client list"
  free_after_use :: bool
  timeout_ms :: "64 word"
  transport :: output_dnssim_transport
  source :: "addr option"
  stats_heap :: "(addr, output_dnssim_stats) fmap"
  sources :: "(addr, output_dnssim_source) fmap"
  requests :: "addr \<rightharpoonup> output_dnssim_request"
  handles :: "addr \<rightharpoonup> uv_handle"
  closing_handles :: "addr list"
  brk :: addr
  frees :: "mem list"

definition defaults :: dnssim where
  "defaults =
     \<lparr>processed = 0, discarded = 0, ongoing = 0,
      stats_sum = None, stats_current = None, stats_first = None,
      max_clients = 0, client_arr = [], free_after_use = False,
      timeout_ms = 2000,
      transport = OUTPUT_DNSSIM_TRANSPORT_UDP_ONLY, source = None,
      stats_heap = fmempty, sources = fmempty,
      requests = Map.empty, handles = Map.empty, closing_handles = [],
      brk = 0, frees = []\<rparr>"

definition client_defaults :: output_dnssim_client where
  "client_defaults =
     \<lparr>req_total = 0, req_answered = 0, req_noerror = 0,
      latency_min = 0, latency_mean = 0, latency_max = 0\<rparr>"

definition stats_defaults :: output_dnssim_stats where
  "stats_defaults = \<lparr>prev = None, nxt = None, total_n = 0, answered = 0, noerror = 0\<rparr>"

definition ERR_MALFORMED :: int where "ERR_MALFORMED = - 2"
definition ERR_MSGID :: int where "ERR_MSGID = - 3"
definition ERR_TC :: int where "ERR_TC = - 4"

definition malloc :: "dnssim \<Rightarrow> addr \<times> dnssim" where
  "malloc s = (brk s, s\<lparr>brk := Suc (brk s)\<rparr>)"


section \<open>libuv: closing handles\<close>

text \<open>
  \<^verbatim>\<open>uv_close\<close> asserts that the handle is not closing yet (libuv's
  \<^verbatim>\<open>assert(!uv__is_closing(handle))\<close>, the error \<open>Abort_closing\<close>), marks it closing,
  stops it and queues its close callback, which the loop runs later.
\<close>

definition uv_close :: "dnssim \<Rightarrow> addr \<Rightarrow> uv_close_cb \<Rightarrow> error + dnssim" where
  "uv_close s handle cb =
     (case handles s handle of
        None \<Rightarrow> Inl Use_after_free
      | Some h \<Rightarrow>
          if h_close_cb h \<noteq> None then Inl Abort_closing
          else Inr (s\<lparr>handles := (handles s)(handle \<mapsto> h\<lparr>h_close_cb := Some cb, h_active := False\<rparr>),
                      closing_handles := handle # closing_handles s\<rparr>))"

definition uv_stop :: "dnssim \<Rightarrow> addr \<Rightarrow> error + dnssim" where
  "uv_stop s handle =
     (case handles s handle of
        None \<Rightarrow> Inl Use_after_free
      | Some h \<Rightarrow> Inr (s\<lparr>handles := (handles s)(handle \<mapsto> h\<lparr>h_active := False\<rparr>)\<rparr>))"

text \<open>\<^verbatim>\<open>uv_timer_stop\<close> and \<^verbatim>\<open>uv_udp_recv_stop\<close> make the handle inactive.\<close>

definition uv_timer_stop :: "dnssim \<Rightarrow> addr \<Rightarrow> error + dnssim" where
  "uv_timer_stop = uv_stop"

definition uv_udp_recv_stop :: "dnssim \<Rightarrow> addr \<Rightarrow> error + dnssim" where
  "uv_udp_recv_stop = uv_stop"

section \<open>Requests and queries\<close>

definition maybe_free_request :: "dnssim \<Rightarrow> addr \<Rightarrow> error + dnssim" where
  "maybe_free_request s req =
     (case requests s req of
        None \<Rightarrow> Inl Use_after_free
      | Some r \<Rightarrow>
          if qry r = [] \<and> timeout r = None then
            Inr (s\<lparr>requests := (requests s)(req := None),
                   frees := frees s
                     @ (if free_after_use s then [Mem_payload (payload r)] else [])
                     @ [Mem_dns (dns_q r), Mem_request req r]\<rparr>)
          else Inr s)"

definition close_query_udp :: "dnssim \<Rightarrow> output_dnssim_query \<Rightarrow> error + dnssim" where
  "close_query_udp s q =
     then_do (uv_udp_recv_stop s (q_handle q))
       (\<lambda>s1. uv_close s1 (q_handle q) Cb_close_query_udp)"

definition close_query :: "dnssim \<Rightarrow> output_dnssim_query \<Rightarrow> error + dnssim" where
  "close_query s q =
     (case q_transport q of
        OUTPUT_DNSSIM_TRANSPORT_UDP \<Rightarrow> close_query_udp s q
      | _ \<Rightarrow> Inr s)"

definition close_request_timeout :: "dnssim \<Rightarrow> addr \<Rightarrow> error + dnssim" where
  "close_request_timeout s handle =
     (case handles s handle of
        None \<Rightarrow> Inl Use_after_free
      | Some h \<Rightarrow>
          (case h_data h of
             None \<Rightarrow> Inl Null_deref
           | Some req \<Rightarrow>
               (case requests s req of
                  None \<Rightarrow> Inl Use_after_free
                | Some r \<Rightarrow>
                    if timeout_closing r = 0 then
                      then_do
                        (uv_timer_stop
                           (s\<lparr>requests := (requests s)(req \<mapsto> r\<lparr>timeout_closing := 1\<rparr>)\<rparr>)
                           handle)
                        (\<lambda>s1. uv_close s1 handle Cb_close_request_timeout)
                    else Inr s)))"

text \<open>The loop of \<^verbatim>\<open>_close_request\<close> over the queries of the request.\<close>

fun close_queries :: "dnssim \<Rightarrow> output_dnssim_query list \<Rightarrow> error + dnssim" where
  "close_queries s [] = Inr s"
| "close_queries s (q # qs) = then_do (close_query s q) (\<lambda>s1. close_queries s1 qs)"

definition close_request :: "dnssim \<Rightarrow> addr option \<Rightarrow> error + dnssim" where
  "close_request s req_ptr =
     (case req_ptr of
        None \<Rightarrow> Inr s
      | Some req \<Rightarrow>
          (case requests s req of
             None \<Rightarrow> Inl Use_after_free
           | Some r \<Rightarrow>
               then_do
                 (case timeout r of
                    None \<Rightarrow> Inr s
                  | Some t \<Rightarrow> close_request_timeout s t)
                 (\<lambda>s1. case requests s1 req of
                     None \<Rightarrow> Inl Use_after_free
                   | Some r1 \<Rightarrow>
                       then_do (close_queries s1 (qry r1))
                         (\<lambda>s2. maybe_free_request s2 req))))"

definition close_request_timeout_cb :: "dnssim \<Rightarrow> addr \<Rightarrow> error + dnssim" where
  "close_request_timeout_cb s handle =
     (case handles s handle of
        None \<Rightarrow> Inl Use_after_free
      | Some h \<Rightarrow>
          (case h_data h of
             None \<Rightarrow> Inl Null_deref
           | Some req \<Rightarrow>
               (let s1 = s\<lparr>handles := (handles s)(handle := None),
                            frees := frees s @ [Mem_handle handle]\<rparr>
                in case requests s1 req of
                     None \<Rightarrow> Inl Use_after_free
                   | Some r \<Rightarrow>
                       close_request
                         (s1\<lparr>requests := (requests s1)(req \<mapsto> r\<lparr>timeout := None\<rparr>)\<rparr>)
                         (Some req))))"

section \<open>UDP\<close>

definition client_update ::
  "dnssim \<Rightarrow> nat \<Rightarrow> (output_dnssim_client \<Rightarrow> output_dnssim_client) \<Rightarrow> error + dnssim" where
  "client_update s i f =
     (if i < length (client_arr s)
      then Inr (s\<lparr>client_arr := (client_arr s)[i := f (client_arr s ! i)]\<rparr>)
      else Inl Out_of_bounds)"

definition stats_update ::
  "dnssim \<Rightarrow> addr option \<Rightarrow> (output_dnssim_stats \<Rightarrow> output_dnssim_stats) \<Rightarrow> error + dnssim" where
  "stats_update s p f =
     (case p of
        None \<Rightarrow> Inl Null_deref
      | Some a \<Rightarrow>
          (case fmlookup (stats_heap s) a of
             None \<Rightarrow> Inl Use_after_free
           | Some st \<Rightarrow> Inr (s\<lparr>stats_heap := fmupd a (f st) (stats_heap s)\<rparr>)))"

text \<open>
  The three increments that count a request, an answer and a NOERROR answer: on the
  client slot, on the sum and on the current snapshot.
\<close>

definition count_total :: "dnssim \<Rightarrow> nat \<Rightarrow> error + dnssim" where
  "count_total s cl =
     then_do (client_update s cl (\<lambda>c. c\<lparr>req_total := req_total c + 1\<rparr>))
     (\<lambda>s1. then_do (stats_update s1 (stats_sum s1) (\<lambda>st. st\<lparr>total_n := total_n st + 1\<rparr>))
     (\<lambda>s2. stats_update s2 (stats_current s2) (\<lambda>st. st\<lparr>total_n := total_n st + 1\<rparr>)))"

definition count_answered :: "dnssim \<Rightarrow> nat \<Rightarrow> error + dnssim" where
  "count_answered s cl =
     then_do (client_update s cl (\<lambda>c. c\<lparr>req_answered := req_answered c + 1\<rparr>))
     (\<lambda>s1. then_do (stats_update s1 (stats_sum s1) (\<lambda>st. st\<lparr>answered := answered st + 1\<rparr>))
     (\<lambda>s2. stats_update s2 (stats_current s2) (\<lambda>st. st\<lparr>answered := answered st + 1\<rparr>)))"

definition count_noerror :: "dnssim \<Rightarrow> nat \<Rightarrow> error + dnssim" where
  "count_noerror s cl =
     then_do (client_update s cl (\<lambda>c. c\<lparr>req_noerror := req_noerror c + 1\<rparr>))
     (\<lambda>s1. then_do (stats_update s1 (stats_sum s1) (\<lambda>st. st\<lparr>noerror := noerror st + 1\<rparr>))
     (\<lambda>s2. stats_update s2 (stats_current s2) (\<lambda>st. st\<lparr>noerror := noerror st + 1\<rparr>)))"

text \<open>
  \<^verbatim>\<open>_process_udp_response\<close>.  \<open>reply\<close> is what \<^verbatim>\<open>core_object_dns_parse_header\<close> makes
  of the received bytes: \<open>None\<close> when it fails, the header otherwise.
\<close>

definition process_udp_response ::
  "dnssim \<Rightarrow> addr \<Rightarrow> int \<Rightarrow> core_object_dns option \<Rightarrow> error + int \<times> dnssim" where
  "process_udp_response s handle nread reply =
     (case handles s handle of
        None \<Rightarrow> Inl Use_after_free
      | Some h \<Rightarrow>
          (case h_data h of
             None \<Rightarrow> Inl Null_deref
           | Some req \<Rightarrow>
               (case reply of
                  None \<Rightarrow> Inr (ERR_MALFORMED, s)
                | Some dns_a \<Rightarrow>
                    (case requests s req of
                       None \<Rightarrow> Inl Use_after_free
                     | Some r \<Rightarrow>
                         if dns_id dns_a \<noteq> dns_q_id r then Inr (ERR_MSGID, s)
                         else if dns_tc dns_a = 1 then Inr (ERR_TC, s)
                         else
                           then_do (count_answered s (client r))
                           (\<lambda>s1. then_do
                              (if dns_rcode dns_a = CORE_OBJECT_DNS_RCODE_NOERROR
                               then count_noerror s1 (client r)
                               else Inr s1)
                           (\<lambda>s2. then_do (close_request s2 (Some req))
                           (\<lambda>s3. Inr (0, s3))))))))"

text \<open>
  \<^verbatim>\<open>_query_udp_recv_cb\<close>; \<open>base\<close> is \<^verbatim>\<open>buf->base\<close>, the receive buffer that
  \<^verbatim>\<open>_query_udp_alloc_cb\<close> allocated.
\<close>

definition query_udp_recv_cb ::
  "dnssim \<Rightarrow> addr \<Rightarrow> int \<Rightarrow> core_object_dns option \<Rightarrow> addr option \<Rightarrow> error + dnssim" where
  "query_udp_recv_cb s handle nread reply base =
     then_do
       (if 0 < nread
        then then_do (process_udp_response s handle nread reply) (\<lambda>(ret, s1). Inr s1)
        else Inr s)
       (\<lambda>s1. case base of
           None \<Rightarrow> Inr s1
         | Some b \<Rightarrow> Inr (s1\<lparr>frees := frees s1 @ [Mem_buf b]\<rparr>))"

text \<open>
  The search loop of \<^verbatim>\<open>_close_query_udp_cb\<close> past the head of the list: the first UDP
  query that owns the handle is taken out of the list; \<open>None\<close> when the end of the list
  is reached without finding one.
\<close>

fun unlink_query ::
  "addr \<Rightarrow> output_dnssim_query list
     \<Rightarrow> (output_dnssim_query \<times> output_dnssim_query list) option" where
  "unlink_query handle [] = None"
| "unlink_query handle (q # qs) =
     (if q_transport q = OUTPUT_DNSSIM_TRANSPORT_UDP \<and> q_handle q = handle
      then Some (q, qs)
      else (case unlink_query handle qs of
              None \<Rightarrow> None
            | Some (found, rest) \<Rightarrow> Some (found, q # rest)))"

definition close_query_udp_cb :: "dnssim \<Rightarrow> addr \<Rightarrow> error + dnssim" where
  "close_query_udp_cb s handle =
     (case handles s handle of
        None \<Rightarrow> Inl Use_after_free
      | Some h \<Rightarrow>
          (case h_data h of
             None \<Rightarrow> Inl Null_deref
           | Some req \<Rightarrow>
               (case requests s req of
                  None \<Rightarrow> Inl Use_after_free
                | Some r \<Rightarrow>
                    (let s1 = s\<lparr>ongoing := ongoing s - 1\<rparr> in
                     case qry r of
                       [] \<Rightarrow> Inl Null_deref
                     | q # qs \<Rightarrow>
                         if q_transport q = OUTPUT_DNSSIM_TRANSPORT_UDP \<and> q_handle q = handle
                         then
                           then_do
                             (maybe_free_request
                                (s1\<lparr>handles := (handles s1)(handle := None),
                                    frees := frees s1 @ [Mem_handle handle],
                                    requests := (requests s1)(req \<mapsto> r\<lparr>qry := qs\<rparr>)\<rparr>)
                                req)
                             (\<lambda>s2. Inr (s2\<lparr>frees := frees s2 @ [Mem_query (q_addr q)]\<rparr>))
                         else
                           (case unlink_query handle qs of
                              None \<Rightarrow> Inr s1
                            | Some (found, rest) \<Rightarrow>
                                Inr (s1\<lparr>handles := (handles s1)(handle := None),
                                        frees := frees s1
                                          @ [Mem_handle handle, Mem_query (q_addr found)],
                                        requests :=
                                          (requests s1)(req \<mapsto> r\<lparr>qry := q # rest\<rparr>)\<rparr>))))))"


text \<open>
  What the environment answers while one request is created: the result of
  \<^verbatim>\<open>core_object_dns_parse_header\<close> on the query payload (\<open>None\<close> when it fails) and
  the return values of the libuv calls.
\<close>

record env =
  parse_header :: "core_object_dns option"
  uv_udp_init_ret :: int
  uv_udp_bind_ret :: int
  uv_udp_try_send_ret :: int
  uv_udp_recv_start_ret :: int
  uv_timer_init_ret :: int
  uv_timer_start_ret :: int

text \<open>
  The bind step of \<^verbatim>\<open>_create_query_udp\<close>: with a source ring, bind the endpoint to
  the address under the cursor and, when that succeeded, advance the cursor.
\<close>

definition bind_to_source :: "dnssim \<Rightarrow> addr \<Rightarrow> int \<Rightarrow> error + int \<times> dnssim" where
  "bind_to_source s handle bind_ret =
     (case source s of
        None \<Rightarrow> Inr (0, s)
      | Some cur \<Rightarrow>
          (case fmlookup (sources s) cur of
             None \<Rightarrow> Inl Use_after_free
           | Some node \<Rightarrow>
               if bind_ret < 0 then Inr (bind_ret, s)
               else
                 (case handles s handle of
                    None \<Rightarrow> Inl Use_after_free
                  | Some h \<Rightarrow>
                      Inr (bind_ret,
                           s\<lparr>handles := (handles s)(handle \<mapsto> h\<lparr>h_bound := Some (src_addr node)\<rparr>),
                             source := Some (src_next node)\<rparr>))))"

definition create_query_udp :: "dnssim \<Rightarrow> addr \<Rightarrow> env \<Rightarrow> error + int \<times> dnssim" where
  "create_query_udp s req e =
     (case requests s req of
        None \<Rightarrow> Inl Use_after_free
      | Some r \<Rightarrow>
          (let (qry_a, s1) = malloc s;
               (handle, s2) = malloc s1;
               q = \<lparr>q_addr = qry_a, q_transport = OUTPUT_DNSSIM_TRANSPORT_UDP,
                    q_handle = handle\<rparr>
           in if uv_udp_init_ret e < 0 then
                Inr (uv_udp_init_ret e,
                     s2\<lparr>frees := frees s2 @ [Mem_handle handle, Mem_query qry_a]\<rparr>)
              else
                then_do
                  (bind_to_source
                     (s2\<lparr>handles := (handles s2)(handle \<mapsto>
                            \<lparr>h_type = UV_UDP, h_data = Some req, h_close_cb = None,
                             h_active = False, h_bound = None\<rparr>),
                         requests := (requests s2)(req \<mapsto> r\<lparr>qry := q # qry r\<rparr>)\<rparr>)
                     handle (uv_udp_bind_ret e))
                  (\<lambda>(ret, s3).
                     if ret < 0 then Inr (ret, s3)
                     else if uv_udp_try_send_ret e < 0 then Inr (uv_udp_try_send_ret e, s3)
                     else if uv_udp_recv_start_ret e < 0 then Inr (uv_udp_recv_start_ret e, s3)
                     else
                       (case handles s3 handle of
                          None \<Rightarrow> Inl Use_after_free
                        | Some h \<Rightarrow>
                            Inr (0, s3\<lparr>handles := (handles s3)(handle \<mapsto> h\<lparr>h_active := True\<rparr>),
                                      ongoing := ongoing s3 + 1\<rparr>)))))"

text \<open>The epilogue \<^verbatim>\<open>failure:\<close> of \<^verbatim>\<open>_create_request_udp\<close>.\<close>

definition create_request_failure :: "dnssim \<Rightarrow> addr \<Rightarrow> error + dnssim" where
  "create_request_failure s req =
     close_request (s\<lparr>discarded := discarded s + 1\<rparr>) (Some req)"

text \<open>
  The last part of \<^verbatim>\<open>_create_request_udp\<close>: allocate the timeout, initialise it and
  start it; on a failure go to the epilogue.
\<close>

definition start_timeout :: "dnssim \<Rightarrow> addr \<Rightarrow> env \<Rightarrow> error + dnssim" where
  "start_timeout s req e =
     (let (t, s1) = malloc s in
      case requests s1 req of
        None \<Rightarrow> Inl Use_after_free
      | Some r \<Rightarrow>
          if uv_timer_init_ret e < 0 then
            create_request_failure
              (s1\<lparr>frees := frees s1 @ [Mem_handle t],
                  requests := (requests s1)(req \<mapsto> r\<lparr>timeout := None\<rparr>)\<rparr>)
              req
          else
            (let s2 = s1\<lparr>handles := (handles s1)(t \<mapsto>
                            \<lparr>h_type = UV_TIMER, h_data = Some req, h_close_cb = None,
                             h_active = False, h_bound = None\<rparr>),
                          requests := (requests s1)(req \<mapsto> r\<lparr>timeout := Some t\<rparr>)\<rparr>
             in if uv_timer_start_ret e < 0 then create_request_failure s2 req
                else
                  (case handles s2 t of
                     None \<Rightarrow> Inl Use_after_free
                   | Some h \<Rightarrow>
                       Inr (s2\<lparr>handles := (handles s2)(t \<mapsto> h\<lparr>h_active := True\<rparr>)\<rparr>))))"

definition create_request_udp :: "dnssim \<Rightarrow> nat \<Rightarrow> addr \<Rightarrow> env \<Rightarrow> error + dnssim" where
  "create_request_udp s cl pl e =
     (let (req, s1) = malloc s;
          (dns, s2) = malloc s1;
          r = \<lparr>qry = [], client = cl, payload = pl, dns_q = dns, dns_q_id = 0,
               timeout = None, timeout_closing = 0\<rparr>;
          s3 = s2\<lparr>requests := (requests s2)(req \<mapsto> r)\<rparr>
      in case parse_header e of
           None \<Rightarrow> create_request_failure s3 req
         | Some hdr \<Rightarrow>
             then_do (count_total
                        (s3\<lparr>requests := (requests s3)(req \<mapsto> r\<lparr>dns_q_id := dns_id hdr\<rparr>)\<rparr>)
                        cl)
             (\<lambda>s4. then_do (create_query_udp s4 req e)
             (\<lambda>(ret, s5).
                if ret < 0 then create_request_failure s5 req
                else start_timeout s5 req e)))"

section \<open>Construction and teardown\<close>

text \<open>
  The initialisation loop of \<^verbatim>\<open>output_dnssim_new\<close>: each of its \<open>k\<close> rounds assigns
  \<^verbatim>\<open>_client_defaults\<close> to \<^verbatim>\<open>*self->client_arr\<close>, the first slot.
\<close>

fun client_init_loop ::
  "nat \<Rightarrow> output_dnssim_client list \<Rightarrow> error + output_dnssim_client list" where
  "client_init_loop 0 arr = Inr arr"
| "client_init_loop (Suc k) arr =
     (if arr = [] then Inl Out_of_bounds
      else client_init_loop k (arr[0 := client_defaults]))"

text \<open>
  \<^verbatim>\<open>calloc\<close> returns storage with every byte zero: each counter is 0 and each latency
  is 0.0.
\<close>

definition calloc_clients :: "nat \<Rightarrow> output_dnssim_client list" where
  "calloc_clients n =
     replicate n \<lparr>req_total = 0, req_answered = 0, req_noerror = 0,
                  latency_min = 0, latency_mean = 0, latency_max = 0\<rparr>"

text \<open>
  \<^verbatim>\<open>output_dnssim_new\<close>.  The two statistics objects come from \<^verbatim>\<open>malloc\<close> and are not
  assigned: \<open>garbage_sum\<close> and \<open>garbage_current\<close> are what the storage happens to hold.
  The loop over the clients is bounded by \<^verbatim>\<open>self->max_clients\<close>, which is still the
  value of \<^verbatim>\<open>_defaults\<close> then.
\<close>

definition output_dnssim_new ::
  "64 word \<Rightarrow> output_dnssim_stats \<Rightarrow> output_dnssim_stats \<Rightarrow> int \<Rightarrow> error + dnssim" where
  "output_dnssim_new n garbage_sum garbage_current uv_loop_init_ret =
     (let self = defaults;
          (sum_p, s1) = malloc self;
          s2 = s1\<lparr>stats_sum := Some sum_p,
                  stats_heap := fmupd sum_p garbage_sum (stats_heap s1)\<rparr>;
          (cur, s3) = malloc s2;
          s4 = s3\<lparr>stats_current := Some cur,
                  stats_heap := fmupd cur garbage_current (stats_heap s3)\<rparr>;
          s5 = s4\<lparr>stats_first := stats_current s4, source := None,
                  transport := OUTPUT_DNSSIM_TRANSPORT_UDP_ONLY,
                  client_arr := calloc_clients (unat n)\<rparr>
      in then_do (client_init_loop (unat (max_clients s5)) (client_arr s5))
           (\<lambda>arr. if uv_loop_init_ret < 0 then Inl Fatal
                   else Inr (s5\<lparr>client_arr := arr, max_clients := n\<rparr>)))"


text \<open>
  The first loop of \<^verbatim>\<open>output_dnssim_free\<close>: free the snapshot under
  \<^verbatim>\<open>stats_current\<close>, step to its \<^verbatim>\<open>prev\<close>, until that is \<^verbatim>\<open>NULL\<close>.
\<close>

function free_stats_loop :: "dnssim \<Rightarrow> error + dnssim" where
  "free_stats_loop s =
     (case stats_current s of
        None \<Rightarrow> Inl Null_deref
      | Some cur \<Rightarrow>
          (case fmlookup (stats_heap s) cur of
             None \<Rightarrow> Inl Use_after_free
           | Some st \<Rightarrow>
               if prev st \<noteq> None then
                 free_stats_loop
                   (s\<lparr>stats_heap := fmdrop cur (stats_heap s),
                      frees := frees s @ [Mem_stats cur],
                      stats_current := prev st\<rparr>)
               else
                 Inr (s\<lparr>stats_heap := fmdrop cur (stats_heap s),
                        frees := frees s @ [Mem_stats cur],
                        stats_current := prev st\<rparr>)))"
  by pat_completeness auto
termination
proof (relation "measure (\<lambda>s. fcard (fmdom (stats_heap s)))")
  show "wf (measure (\<lambda>s. fcard (fmdom (stats_heap s))))"
    by simp
next
  fix s :: dnssim and cur st
  assume "fmlookup (stats_heap s) cur = Some st"
  then have "cur |\<in>| fmdom (stats_heap s)"
    by (rule fmdomI)
  then have "fcard (fmdom (stats_heap s) |-| {|cur|}) < fcard (fmdom (stats_heap s))"
    by (rule fcard_fminus1_less)
  then show "(s\<lparr>stats_heap := fmdrop cur (stats_heap s), frees := frees s @ [Mem_stats cur],
                stats_current := prev st\<rparr>, s)
             \<in> measure (\<lambda>s. fcard (fmdom (stats_heap s)))"
    by simp
qed

declare free_stats_loop.simps [simp del]

text \<open>
  The second loop: free the node under the cursor, step to its \<^verbatim>\<open>next\<close>, until the
  cursor is back at \<open>first\<close>.
\<close>

function free_source_loop :: "addr \<Rightarrow> dnssim \<Rightarrow> error + dnssim" where
  "free_source_loop first s =
     (case source s of
        None \<Rightarrow> Inl Null_deref
      | Some cur \<Rightarrow>
          (case fmlookup (sources s) cur of
             None \<Rightarrow> Inl Use_after_free
           | Some node \<Rightarrow>
               if src_next node \<noteq> first then
                 free_source_loop first
                   (s\<lparr>sources := fmdrop cur (sources s),
                      frees := frees s @ [Mem_source cur],
                      source := Some (src_next node)\<rparr>)
               else
                 Inr (s\<lparr>sources := fmdrop cur (sources s),
                        frees := frees s @ [Mem_source cur],
                        source := Some (src_next node)\<rparr>)))"
  by pat_completeness auto
termination
proof (relation "measure (\<lambda>(first, s). fcard (fmdom (sources s)))")
  show "wf (measure (\<lambda>(first, s). fcard (fmdom (sources s))))"
    by simp
next
  fix first :: addr and s :: dnssim and cur node
  assume "fmlookup (sources s) cur = Some node"
  then have "cur |\<in>| fmdom (sources s)"
    by (rule fmdomI)
  then have "fcard (fmdom (sources s) |-| {|cur|}) < fcard (fmdom (sources s))"
    by (rule fcard_fminus1_less)
  then show "((first, s\<lparr>sources := fmdrop cur (sources s), frees := frees s @ [Mem_source cur],
                source := Some (src_next node)\<rparr>), (first, s))
             \<in> measure (\<lambda>(first, s). fcard (fmdom (sources s)))"
    by simp
qed

declare free_source_loop.simps [simp del]

text \<open>\<^verbatim>\<open>free\<close> of a statistics object; \<^verbatim>\<open>free(NULL)\<close> does nothing.\<close>

definition free_stats :: "dnssim \<Rightarrow> addr option \<Rightarrow> error + dnssim" where
  "free_stats s p =
     (case p of
        None \<Rightarrow> Inr s
      | Some a \<Rightarrow>
          (case fmlookup (stats_heap s) a of
             None \<Rightarrow> Inl Use_after_free
           | Some st \<Rightarrow>
               Inr (s\<lparr>stats_heap := fmdrop a (stats_heap s),
                      frees := frees s @ [Mem_stats a]\<rparr>)))"

text \<open>
  \<^verbatim>\<open>output_dnssim_free\<close>.  The return value of \<^verbatim>\<open>uv_loop_close\<close> is only logged.  The
  engine itself is freed last.
\<close>

definition output_dnssim_free :: "dnssim \<Rightarrow> error + dnssim" where
  "output_dnssim_free s =
     (let first = source s in
      then_do (free_stats s (stats_sum s))
      (\<lambda>s1. then_do (free_stats_loop s1)
      (\<lambda>s2. then_do
         (case first of
            None \<Rightarrow> Inr s2
          | Some f \<Rightarrow> free_source_loop f s2)
      (\<lambda>s3. Inr (s3\<lparr>client_arr := [],
                    frees := frees s3 @ [Mem_client_arr, Mem_self]\<rparr>)))))"

section \<open>Ingress\<close>

text \<open>
  Modelled from the spec: \<^verbatim>\<open>core/object.h\<close> and the object headers are missing.  An
  element of the inbound chain has a type tag (IP, IP6, PAYLOAD, DNS or another
  protocol layer) and, for IP and IP6, the bytes of the destination address.  The
  chain linked by \<^verbatim>\<open>obj_prev\<close> is a list, the object handed to the receiver first.
\<close>

datatype core_object_type =
    CORE_OBJECT_IP | CORE_OBJECT_IP6 | CORE_OBJECT_PAYLOAD | CORE_OBJECT_DNS
  | CORE_OBJECT_OTHER

record core_object =
  obj_addr :: addr
  obj_type :: core_object_type
  dst :: "8 word list"

text \<open>\<^verbatim>\<open>memcpy\<close> of four bytes into a \<^verbatim>\<open>uint32_t\<close> on a little-endian host.\<close>

definition memcpy_u32 :: "8 word list \<Rightarrow> 32 word" where
  "memcpy_u32 bs = word_rcat (rev (take 4 bs))"

definition extract_client :: "core_object \<Rightarrow> 32 word" where
  "extract_client obj =
     (case obj_type obj of
        CORE_OBJECT_IP \<Rightarrow> memcpy_u32 (dst obj)
      | CORE_OBJECT_IP6 \<Rightarrow> memcpy_u32 (dst obj)
      | _ \<Rightarrow> - 1)"

text \<open>
  The first loop of \<^verbatim>\<open>_receive\<close>: the chain from its first PAYLOAD object on, \<open>None\<close>
  when the chain ends before one is found.
\<close>

fun find_payload :: "core_object list \<Rightarrow> core_object list option" where
  "find_payload [] = None"
| "find_payload (current # rest) =
     (if obj_type current = CORE_OBJECT_PAYLOAD then Some (current # rest)
      else find_payload rest)"

text \<open>The second loop: the first IP or IP6 object from \<open>current\<close> on.\<close>

fun find_ip :: "core_object list \<Rightarrow> core_object option" where
  "find_ip [] = None"
| "find_ip (current # rest) =
     (if obj_type current = CORE_OBJECT_IP \<or> obj_type current = CORE_OBJECT_IP6
      then Some current
      else find_ip rest)"

text \<open>The third loop: \<^verbatim>\<open>core_object_free\<close> of every object that is not a PAYLOAD.\<close>

fun free_objects :: "core_object list \<Rightarrow> mem list" where
  "free_objects [] = []"
| "free_objects (parent # rest) =
     (if obj_type parent \<noteq> CORE_OBJECT_PAYLOAD then [Mem_object (obj_addr parent)] else [])
       @ free_objects rest"

definition receive ::
  "(dnssim \<Rightarrow> nat \<Rightarrow> addr \<Rightarrow> error + dnssim) \<Rightarrow> dnssim \<Rightarrow> core_object list
     \<Rightarrow> error + dnssim" where
  "receive create_request s obj =
     (if obj = [] then Inl Null_deref
      else
        (let s1 = s\<lparr>processed := processed s + 1\<rparr> in
         case find_payload obj of
           None \<Rightarrow> Inr (s1\<lparr>discarded := discarded s1 + 1\<rparr>)
         | Some current \<Rightarrow>
             (case find_ip current of
                None \<Rightarrow> Inr (s1\<lparr>discarded := discarded s1 + 1\<rparr>)
              | Some ip \<Rightarrow>
                  (let cl = extract_client ip;
                       s2 = (if free_after_use s1
                             then s1\<lparr>frees := frees s1 @ free_objects obj\<rparr>
                             else s1)
                   in if max_clients s2 \<le> ucast cl
                      then Inr (s2\<lparr>discarded := discarded s2 + 1\<rparr>)
                      else create_request s2 (unat cl) (obj_addr (hd current))))))"


section \<open>Source ring and statistics\<close>

text \<open>
  \<^verbatim>\<open>output_dnssim_bind\<close>; \<open>uv_ip6_addr\<close> is libuv's parser of IPv6 literals, \<open>None\<close>
  for a string it rejects, in which case \<^verbatim>\<open>lfatal\<close> ends the call.
\<close>

definition output_dnssim_bind ::
  "(string \<Rightarrow> sockaddr option) \<Rightarrow> dnssim \<Rightarrow> string \<Rightarrow> error + int \<times> dnssim" where
  "output_dnssim_bind uv_ip6_addr s ip =
     (let (src, s1) = malloc s in
      case uv_ip6_addr ip of
        None \<Rightarrow> Inl Fatal
      | Some a \<Rightarrow>
          (case source s1 of
             None \<Rightarrow>
               Inr (0, s1\<lparr>sources := fmupd src \<lparr>src_next = src, src_addr = a\<rparr> (sources s1),
                         source := Some src\<rparr>)
           | Some cur \<Rightarrow>
               (case fmlookup (sources s1) cur of
                  None \<Rightarrow> Inl Use_after_free
                | Some node \<Rightarrow>
                    Inr (0, s1\<lparr>sources :=
                                fmupd cur (node\<lparr>src_next := src\<rparr>)
                                  (fmupd src \<lparr>src_next = src_next node, src_addr = a\<rparr>
                                     (sources s1))\<rparr>))))"

text \<open>
  \<^verbatim>\<open>_stat_timer_cb\<close>: the log line reads \<^verbatim>\<open>stats_sum->answered\<close>, then a fresh
  snapshot is linked after the current one and becomes current.
\<close>

definition stat_timer_cb :: "dnssim \<Rightarrow> error + dnssim" where
  "stat_timer_cb s =
     (case stats_sum s of
        None \<Rightarrow> Inl Null_deref
      | Some sum_p \<Rightarrow>
          (case fmlookup (stats_heap s) sum_p of
             None \<Rightarrow> Inl Use_after_free
           | Some st_sum \<Rightarrow>
               (let (stats_next, s1) = malloc s in
                case stats_current s1 of
                  None \<Rightarrow> Inl Null_deref
                | Some cur \<Rightarrow>
                    (case fmlookup (stats_heap s1) cur of
                       None \<Rightarrow> Inl Use_after_free
                     | Some st \<Rightarrow>
                         Inr (s1\<lparr>stats_heap :=
                                   fmupd cur (st\<lparr>nxt := Some stats_next\<rparr>)
                                     (fmupd stats_next
                                        (stats_defaults\<lparr>prev := stats_current s1\<rparr>)
                                        (stats_heap s1)),
                                 stats_current := Some stats_next\<rparr>)))))"

section \<open>The event loop\<close>

text \<open>
  What libuv does between two calls of the engine.  It runs the close callback of a
  handle that is waiting for it, after taking the handle off the queue; it fires a
  started timer, which stops the one-shot timer and calls \<^verbatim>\<open>_close_request_timeout\<close>;
  it delivers a datagram to a receiving endpoint through \<^verbatim>\<open>_query_udp_recv_cb\<close>.
\<close>

definition run_close_cb :: "dnssim \<Rightarrow> addr \<Rightarrow> error + dnssim" where
  "run_close_cb s handle =
     (case handles s handle of
        None \<Rightarrow> Inl Use_after_free
      | Some h \<Rightarrow>
          (let s1 = s\<lparr>closing_handles := remove1 handle (closing_handles s)\<rparr> in
           case h_close_cb h of
             None \<Rightarrow> Inr s1
           | Some Cb_close_query_udp \<Rightarrow> close_query_udp_cb s1 handle
           | Some Cb_close_request_timeout \<Rightarrow> close_request_timeout_cb s1 handle))"

definition run_timer :: "dnssim \<Rightarrow> addr \<Rightarrow> error + dnssim" where
  "run_timer s handle =
     then_do (uv_timer_stop s handle) (\<lambda>s1. close_request_timeout s1 handle)"

definition can_close :: "dnssim \<Rightarrow> addr \<Rightarrow> bool" where
  "can_close s handle = (handle \<in> set (closing_handles s))"

definition can_fire :: "dnssim \<Rightarrow> addr \<Rightarrow> bool" where
  "can_fire s handle =
     (case handles s handle of
        None \<Rightarrow> False
      | Some h \<Rightarrow> h_type h = UV_TIMER \<and> h_active h \<and> h_close_cb h = None)"

definition can_recv :: "dnssim \<Rightarrow> addr \<Rightarrow> bool" where
  "can_recv s handle =
     (case handles s handle of
        None \<Rightarrow> False
      | Some h \<Rightarrow> h_type h = UV_UDP \<and> h_active h \<and> h_close_cb h = None)"

text \<open>
  The states the engine can be in: built by \<^verbatim>\<open>output_dnssim_new\<close>, then any
  sequence of configuration calls, packets handed to the receiver, statistics ticks
  and loop events whose handler returns.
\<close>

inductive reachable :: "dnssim \<Rightarrow> bool" where
  r_new: "output_dnssim_new n g1 g2 ret = Inr s \<Longrightarrow> reachable s"
| r_flag: "reachable s \<Longrightarrow> reachable (s\<lparr>free_after_use := b\<rparr>)"
| r_timeout: "reachable s \<Longrightarrow> reachable (s\<lparr>timeout_ms := ms\<rparr>)"
| r_bind: "reachable s \<Longrightarrow> output_dnssim_bind parse s ip = Inr (ret, s') \<Longrightarrow> reachable s'"
| r_receive:
    "reachable s \<Longrightarrow> receive (\<lambda>s1 cl pl. create_request_udp s1 cl pl e) s obj = Inr s'
       \<Longrightarrow> reachable s'"
| r_tick: "reachable s \<Longrightarrow> stat_timer_cb s = Inr s' \<Longrightarrow> reachable s'"
| r_close: "reachable s \<Longrightarrow> can_close s h \<Longrightarrow> run_close_cb s h = Inr s' \<Longrightarrow> reachable s'"
| r_fire: "reachable s \<Longrightarrow> can_fire s h \<Longrightarrow> run_timer s h = Inr s' \<Longrightarrow> reachable s'"
| r_recv:
    "reachable s \<Longrightarrow> can_recv s h \<Longrightarrow> query_udp_recv_cb s h nread reply base = Inr s'
       \<Longrightarrow> reachable s'"


section \<open>Example states\<close>

definition ex_request :: output_dnssim_request where
  "ex_request =
     \<lparr>qry = [], client = 0, payload = 40, dns_q = 41, dns_q_id = 4660,
      timeout = None, timeout_closing = 0\<rparr>"

definition ex_timer :: uv_handle where
  "ex_timer =
     \<lparr>h_type = UV_TIMER, h_data = Some 7, h_close_cb = Some Cb_close_request_timeout,
      h_active = False, h_bound = None\<rparr>"

text \<open>An engine holding one request that has neither a query nor a timeout.\<close>

definition ex_idle :: dnssim where
  "ex_idle = defaults\<lparr>requests := [7 \<mapsto> ex_request], brk := 42\<rparr>"

text \<open>An engine holding one request whose timeout is being closed.\<close>

definition ex_timer_closing :: dnssim where
  "ex_timer_closing =
     defaults\<lparr>requests := [7 \<mapsto> ex_request\<lparr>timeout := Some 8, timeout_closing := 1\<rparr>],
              handles := [8 \<mapsto> ex_timer], closing_handles := [8], brk := 42\<rparr>"

section \<open>Shapes of the linked structures\<close>

text \<open>
  \<open>stats_chain h cs\<close>: following \<^verbatim>\<open>prev\<close> from the first address of \<open>cs\<close> visits exactly
  the snapshots \<open>cs\<close>, in this order, and the last one has a null \<^verbatim>\<open>prev\<close>.
\<close>

fun stats_chain :: "(addr, output_dnssim_stats) fmap \<Rightarrow> addr list \<Rightarrow> bool" where
  "stats_chain h [] = False"
| "stats_chain h [x] =
     (case fmlookup h x of None \<Rightarrow> False | Some st \<Rightarrow> prev st = None)"
| "stats_chain h (x # y # ys) =
     (case fmlookup h x of
        None \<Rightarrow> False
      | Some st \<Rightarrow> prev st = Some y \<and> stats_chain h (y # ys))"

text \<open>
  \<open>ring_path h first ns\<close>: following \<^verbatim>\<open>next\<close> from the first address of \<open>ns\<close> visits the
  nodes \<open>ns\<close>, in this order, and the last one points to \<open>first\<close>.  \<open>source_ring s ns\<close>:
  the source list of the engine is empty (\<open>ns = []\<close>), or it is the circle of the
  distinct nodes \<open>ns\<close> with the cursor on the first of them.
\<close>

fun ring_path :: "(addr, output_dnssim_source) fmap \<Rightarrow> addr \<Rightarrow> addr list \<Rightarrow> bool" where
  "ring_path h first [] = False"
| "ring_path h first [x] =
     (case fmlookup h x of None \<Rightarrow> False | Some node \<Rightarrow> src_next node = first)"
| "ring_path h first (x # y # ys) =
     (case fmlookup h x of
        None \<Rightarrow> False
      | Some node \<Rightarrow> src_next node = y \<and> ring_path h first (y # ys))"

definition source_ring :: "dnssim \<Rightarrow> addr list \<Rightarrow> bool" where
  "source_ring s ns =
     (case ns of
        [] \<Rightarrow> source s = None
      | x # xs \<Rightarrow> source s = Some x \<and> distinct ns \<and> ring_path (sources s) x ns)"

text \<open>
  An engine for one client whose statistics timer has ticked once: the sum at address
  0, the first snapshot at 1, the current one at 2.
\<close>

definition ex_two_snapshots :: dnssim where
  "ex_two_snapshots =
     (case then_do (output_dnssim_new 1 stats_defaults stats_defaults 0) stat_timer_cb of
        Inl e \<Rightarrow> defaults
      | Inr s \<Rightarrow> s)"

section \<open>The inbound chain\<close>

text \<open>
  Notions for stating what \<^verbatim>\<open>_receive\<close> does: the PAYLOAD objects, the IP and IP6
  objects, and the part of the chain from its first PAYLOAD object on.
\<close>

definition is_payload :: "core_object \<Rightarrow> bool" where
  "is_payload obj = (obj_type obj = CORE_OBJECT_PAYLOAD)"

definition is_ip :: "core_object \<Rightarrow> bool" where
  "is_ip obj = (obj_type obj = CORE_OBJECT_IP \<or> obj_type obj = CORE_OBJECT_IP6)"

definition from_payload :: "core_object list \<Rightarrow> core_object list" where
  "from_payload obj = dropWhile (\<lambda>x. \<not> is_payload x) obj"

text \<open>
  Examples: an environment in which every step of creating a request succeeds (the
  query id is 0x1234), a chain of a payload above an IPv6 layer with destination
  address \<open>d\<close>, and a fresh engine for four clients.
\<close>

definition ex_env :: env where
  "ex_env = \<lparr>parse_header = Some \<lparr>dns_id = 4660, dns_tc = 0, dns_rcode = 0\<rparr>,
     uv_udp_init_ret = 0, uv_udp_bind_ret = 0, uv_udp_try_send_ret = 17,
     uv_udp_recv_start_ret = 0, uv_timer_init_ret = 0, uv_timer_start_ret = 0\<rparr>"

definition ex_chain :: "8 word list \<Rightarrow> core_object list" where
  "ex_chain d =
     [\<lparr>obj_addr = 10, obj_type = CORE_OBJECT_PAYLOAD, dst = []\<rparr>,
      \<lparr>obj_addr = 11, obj_type = CORE_OBJECT_OTHER, dst = []\<rparr>,
      \<lparr>obj_addr = 12, obj_type = CORE_OBJECT_IP6, dst = d\<rparr>,
      \<lparr>obj_addr = 13, obj_type = CORE_OBJECT_OTHER, dst = []\<rparr>]"

definition ex_engine :: dnssim where
  "ex_engine =
     (case output_dnssim_new 4 stats_defaults stats_defaults 0 of
        Inl e \<Rightarrow> defaults
      | Inr s \<Rightarrow> s\<lparr>brk := 20\<rparr>)"

section \<open>Binding and consuming sources\<close>

text \<open>
  A sequence of \<^verbatim>\<open>output_dnssim_bind\<close> calls, each of which has to return.
\<close>

fun bind_all ::
  "(string \<Rightarrow> sockaddr option) \<Rightarrow> dnssim \<Rightarrow> string list \<Rightarrow> error + dnssim" where
  "bind_all uv_ip6_addr s [] = Inr s"
| "bind_all uv_ip6_addr s (ip # ips) =
     then_do (output_dnssim_bind uv_ip6_addr s ip) (\<lambda>(ret, s1). bind_all uv_ip6_addr s1 ips)"

text \<open>
  \<open>source_rotation h cur n\<close>: the addresses the next \<open>n\<close> successful query creations
  bind to, each reading the node under the cursor and moving the cursor to its
  \<^verbatim>\<open>next\<close>.  \<open>node_addrs h ns\<close>: the addresses stored in the nodes \<open>ns\<close>.
\<close>

fun source_rotation ::
  "(addr, output_dnssim_source) fmap \<Rightarrow> addr \<Rightarrow> nat \<Rightarrow> sockaddr list" where
  "source_rotation h cur 0 = []"
| "source_rotation h cur (Suc n) =
     (case fmlookup h cur of
        None \<Rightarrow> []
      | Some node \<Rightarrow> src_addr node # source_rotation h (src_next node) n)"

definition node_addrs :: "(addr, output_dnssim_source) fmap \<Rightarrow> addr list \<Rightarrow> sockaddr list" where
  "node_addrs h ns = map (\<lambda>n. case fmlookup h n of None \<Rightarrow> 0 | Some node \<Rightarrow> src_addr node) ns"

text \<open>An IPv6 parser that knows three literals.\<close>

definition ex_parse :: "string \<Rightarrow> sockaddr option" where
  "ex_parse ip =
     (if ip = ''::1'' then Some 1 else if ip = ''::2'' then Some 2
      else if ip = ''::3'' then Some 3 else None)"

text \<open>
  An environment in which \<^verbatim>\<open>uv_udp_try_send\<close> fails (network unreachable), and a
  packet for client 2.
\<close>

definition ex_env_send_fails :: env where
  "ex_env_send_fails = ex_env\<lparr>uv_udp_try_send_ret := - 101\<rparr>"

definition ex_packet :: "core_object list" where
  "ex_packet = ex_chain [2, 0, 0, 0, 0, 0, 0, 0, 0, 0, 0, 0, 0, 0, 0, 1]"

(*PROPERTIES*)
section \<open>Properties\<close>

subsection \<open>Construction\<close>

lemma client_init_loop_replicate:
  "0 < n \<Longrightarrow> client_init_loop k (replicate n client_defaults) = Inr (replicate n client_defaults)"
proof (induction k)
  case 0
  then show ?case by simp
next
  case (Suc k)
  from Suc.prems have "(replicate n client_defaults)[0 := client_defaults] = replicate n client_defaults"
    by (cases n) simp_all
  with Suc show ?case by simp
qed

lemma calloc_clients_defaults: "calloc_clients n = replicate n client_defaults"
  by (simp add: calloc_clients_def client_defaults_def)

text \<open>
  Claim C9.  For every \<open>max_clients > 0\<close>, \<^verbatim>\<open>output_dnssim_new\<close> returns (when the loop
  initialises) an engine whose client array has \<open>max_clients\<close> slots, every one of them
  equal to the client defaults: the three request counters and the three latency
  fields are zero in each slot, not only in slot 0.  The slots are zero because
  \<^verbatim>\<open>calloc\<close> zeroes them; the loop, bounded by the default \<^verbatim>\<open>max_clients\<close>, only ever
  writes slot 0.
\<close>

theorem new_initialises_every_client:
  assumes "0 < n" and "0 \<le> ret"
  shows "\<exists>s. output_dnssim_new n g1 g2 ret = Inr s
           \<and> max_clients s = n
           \<and> length (client_arr s) = unat n
           \<and> (\<forall>i < unat n. client_arr s ! i = client_defaults
                 \<and> req_total (client_arr s ! i) = 0
                 \<and> req_answered (client_arr s ! i) = 0
                 \<and> req_noerror (client_arr s ! i) = 0
                 \<and> latency_min (client_arr s ! i) = 0
                 \<and> latency_mean (client_arr s ! i) = 0
                 \<and> latency_max (client_arr s ! i) = 0)"
proof -
  from assms(1) have pos: "0 < unat n"
    by (simp add: unat_gt_0)
  have loop: "client_init_loop (unat (max_clients defaults)) (calloc_clients (unat n))
                = Inr (replicate (unat n) client_defaults)"
    using client_init_loop_replicate [OF pos] by (simp add: calloc_clients_defaults)
  show ?thesis
    using assms(2) loop
    by (simp add: output_dnssim_new_def malloc_def then_do_def Let_def client_defaults_def)
qed

theorem new_initialises_every_client_witness:
  "(0 :: 64 word) < 3 \<and> (0 :: int) \<le> 0
   \<and> (\<exists>s. output_dnssim_new 3 stats_defaults stats_defaults 0 = Inr s
          \<and> max_clients s = 3 \<and> length (client_arr s) = 3
          \<and> client_arr s ! 2 = client_defaults)"
proof -
  have pos: "(0 :: 64 word) < 3" by simp
  have ret: "(0 :: int) \<le> 0" by simp
  from new_initialises_every_client [OF pos ret, of stats_defaults stats_defaults]
  obtain s where s: "output_dnssim_new 3 stats_defaults stats_defaults 0 = Inr s"
    "max_clients s = 3" "length (client_arr s) = unat (3 :: 64 word)"
    "\<forall>i < unat (3 :: 64 word). client_arr s ! i = client_defaults"
    by blast
  have three: "unat (3 :: 64 word) = 3" by simp
  from s(4) three have "client_arr s ! 2 = client_defaults" by simp
  with s(1,2,3) three pos ret show ?thesis by simp
qed

subsection \<open>Freeing a request\<close>

text \<open>
  Claim C2.  For every request in the store, \<^verbatim>\<open>_maybe_free_request\<close> returns, and the
  request is gone afterwards if and only if its query list is empty and its timeout is
  null.  When it frees, the calls to \<^verbatim>\<open>free\<close> it makes are: the payload exactly when
  \<^verbatim>\<open>free_after_use\<close> is set, then the parsed DNS header, then the request, and nothing
  else changes.  When the condition fails the state is unchanged.
\<close>

theorem maybe_free_request_spec:
  assumes "requests s req = Some r"
  shows "\<exists>s'. maybe_free_request s req = Inr s'
           \<and> (requests s' req = None \<longleftrightarrow> qry r = [] \<and> timeout r = None)
           \<and> (qry r = [] \<and> timeout r = None \<longrightarrow>
                 s' = s\<lparr>requests := (requests s)(req := None),
                        frees := frees s
                          @ (if free_after_use s then [Mem_payload (payload r)] else [])
                          @ [Mem_dns (dns_q r), Mem_request req r]\<rparr>
                 \<and> (Mem_payload (payload r) \<in> set (drop (length (frees s)) (frees s'))
                        \<longleftrightarrow> free_after_use s)
                 \<and> Mem_dns (dns_q r) \<in> set (drop (length (frees s)) (frees s')))
           \<and> (\<not> (qry r = [] \<and> timeout r = None) \<longrightarrow> s' = s)"
  using assms by (auto simp add: maybe_free_request_def)

theorem maybe_free_request_spec_witness:
  "requests ex_idle 7 = Some ex_request
   \<and> (\<exists>s'. maybe_free_request ex_idle 7 = Inr s' \<and> requests s' 7 = None
          \<and> frees s' = [Mem_dns 41, Mem_request 7 ex_request])"
proof -
  have live: "requests ex_idle 7 = Some ex_request"
    by (simp add: ex_idle_def)
  have idle: "qry ex_request = [] \<and> timeout ex_request = None"
    by (simp add: ex_request_def)
  from maybe_free_request_spec [OF live] idle
  obtain s' where s': "maybe_free_request ex_idle 7 = Inr s'" "requests s' 7 = None"
    "s' = ex_idle\<lparr>requests := (requests ex_idle)(7 := None),
                   frees := frees ex_idle
                     @ (if free_after_use ex_idle then [Mem_payload (payload ex_request)] else [])
                     @ [Mem_dns (dns_q ex_request), Mem_request 7 ex_request]\<rparr>"
    by blast
  from s'(3) have "frees s' = [Mem_dns 41, Mem_request 7 ex_request]"
    by (simp add: ex_idle_def defaults_def ex_request_def)
  with live s'(1,2) show ?thesis by blast
qed

subsection \<open>Closing the timeout\<close>

lemma close_request_timeout_flagged:
  assumes "handles s t = Some h" and "h_data h = Some req" and "requests s req = Some r"
    and "timeout_closing r \<noteq> 0"
  shows "close_request_timeout s t = Inr s"
  using assms by (simp add: close_request_timeout_def)

lemma close_request_timeout_first:
  assumes "handles s t = Some h" and "h_data h = Some req" and "requests s req = Some r"
    and "timeout_closing r = 0" and "close_request_timeout s t = Inr s'"
  shows "handles s' t = Some (h\<lparr>h_active := False, h_close_cb := Some Cb_close_request_timeout\<rparr>)
         \<and> requests s' req = Some (r\<lparr>timeout_closing := 1\<rparr>)
         \<and> closing_handles s' = t # closing_handles s"
proof -
  from assms(5) assms(1-4) have "h_close_cb h = None"
    by (simp add: close_request_timeout_def uv_timer_stop_def uv_stop_def uv_close_def
        then_do_def split: if_splits)
  with assms show ?thesis
    by (auto simp add: close_request_timeout_def uv_timer_stop_def uv_stop_def uv_close_def
        then_do_def)
qed

text \<open>
  Claim C10.  Closing a request's timeout is idempotent.  When the request's
  \<^verbatim>\<open>timeout_closing\<close> flag is already set, \<^verbatim>\<open>_close_request_timeout\<close> returns the state
  unchanged: no second timer stop, no second \<^verbatim>\<open>uv_close\<close>.  And whenever a call
  returns, calling it again on the result changes nothing.
\<close>

theorem close_request_timeout_idem:
  "(handles s t = Some h \<and> h_data h = Some req \<and> requests s req = Some r
      \<and> timeout_closing r \<noteq> 0 \<longrightarrow> close_request_timeout s t = Inr s)
   \<and> (close_request_timeout s t = Inr s' \<longrightarrow> close_request_timeout s' t = Inr s')"
proof (intro conjI impI)
  assume "handles s t = Some h \<and> h_data h = Some req \<and> requests s req = Some r
      \<and> timeout_closing r \<noteq> 0"
  then show "close_request_timeout s t = Inr s"
    by (simp add: close_request_timeout_flagged)
next
  assume run: "close_request_timeout s t = Inr s'"
  then obtain h0 where h0: "handles s t = Some h0"
    by (cases "handles s t") (simp_all add: close_request_timeout_def)
  with run obtain req0 where d0: "h_data h0 = Some req0"
    by (cases "h_data h0") (simp_all add: close_request_timeout_def)
  with run h0 obtain r0 where r0: "requests s req0 = Some r0"
    by (cases "requests s req0") (simp_all add: close_request_timeout_def)
  show "close_request_timeout s' t = Inr s'"
  proof (cases "timeout_closing r0 = 0")
    case True
    from close_request_timeout_first [OF h0 d0 r0 True run]
    show ?thesis
      using d0 by (simp add: close_request_timeout_flagged)
  next
    case False
    with h0 d0 r0 have "close_request_timeout s t = Inr s"
      by (simp add: close_request_timeout_flagged)
    with run show ?thesis by simp
  qed
qed

theorem close_request_timeout_idem_witness:
  "handles ex_timer_closing 8 = Some ex_timer \<and> h_data ex_timer = Some 7
   \<and> requests ex_timer_closing 7 = Some (ex_request\<lparr>timeout := Some 8, timeout_closing := 1\<rparr>)
   \<and> timeout_closing (ex_request\<lparr>timeout := Some 8, timeout_closing := 1\<rparr>) \<noteq> 0
   \<and> close_request_timeout ex_timer_closing 8 = Inr ex_timer_closing
   \<and> closing_handles ex_timer_closing = [8]"
proof -
  have pre: "handles ex_timer_closing 8 = Some ex_timer \<and> h_data ex_timer = Some 7
     \<and> requests ex_timer_closing 7 = Some (ex_request\<lparr>timeout := Some 8, timeout_closing := 1\<rparr>)
     \<and> timeout_closing (ex_request\<lparr>timeout := Some 8, timeout_closing := 1\<rparr>) \<noteq> 0"
    by (simp add: ex_timer_closing_def ex_timer_def)
  have "closing_handles ex_timer_closing = [8]"
    by (simp add: ex_timer_closing_def defaults_def)
  with pre close_request_timeout_idem
    [of ex_timer_closing 8 ex_timer 7 "ex_request\<lparr>timeout := Some 8, timeout_closing := 1\<rparr>"]
  show ?thesis by blast
qed

subsection \<open>Teardown\<close>

lemma stats_chain_fmdrop:
  "x \<notin> set cs \<Longrightarrow> stats_chain (fmdrop x h) cs = stats_chain h cs"
  by (induction h cs rule: stats_chain.induct) (auto split: option.splits)

lemma ring_path_fmdrop:
  "x \<notin> set ns \<Longrightarrow> ring_path (fmdrop x h) first ns = ring_path h first ns"
  by (induction h first ns rule: ring_path.induct) (auto split: option.splits)

lemma free_stats_loop_chain:
  assumes "stats_chain (stats_heap s) cs" and "distinct cs" and "stats_current s = Some (hd cs)"
  shows "free_stats_loop s
           = Inr (s\<lparr>stats_heap := fold fmdrop cs (stats_heap s),
                    frees := frees s @ map Mem_stats cs, stats_current := None\<rparr>)"
  using assms
proof (induction cs arbitrary: s)
  case Nil
  then show ?case by simp
next
  case (Cons x xs)
  show ?case
  proof (cases xs)
    case Nil
    with Cons.prems obtain st where st: "fmlookup (stats_heap s) x = Some st" "prev st = None"
      by (auto split: option.splits)
    from Cons.prems(3) have cur: "stats_current s = Some x" by simp
    show ?thesis
      by (simp add: free_stats_loop.simps [of s] cur st Nil)
  next
    case (Cons y ys)
    with Cons.prems obtain st where st: "fmlookup (stats_heap s) x = Some st" "prev st = Some y"
      and rest: "stats_chain (stats_heap s) xs"
      by (auto split: option.splits)
    from Cons.prems(3) have cur: "stats_current s = Some x" by simp
    let ?s1 = "s\<lparr>stats_heap := fmdrop x (stats_heap s), frees := frees s @ [Mem_stats x],
                 stats_current := prev st\<rparr>"
    from Cons.prems have "x \<notin> set xs" and dist: "distinct xs" by simp_all
    with rest have a: "stats_chain (stats_heap ?s1) xs"
      by (simp add: stats_chain_fmdrop)
    from st Cons have b: "stats_current ?s1 = Some (hd xs)" by simp
    have unfold: "free_stats_loop s = free_stats_loop ?s1"
      by (simp add: free_stats_loop.simps [of s] cur st)
    show ?thesis
      unfolding unfold Cons.IH [OF a dist b] by simp
  qed
qed

lemma free_source_loop_ring:
  assumes "ring_path (sources s) first ns" and "distinct ns" and "first \<notin> set (tl ns)"
    and "source s = Some (hd ns)"
  shows "free_source_loop first s
           = Inr (s\<lparr>sources := fold fmdrop ns (sources s),
                    frees := frees s @ map Mem_source ns, source := Some first\<rparr>)"
  using assms
proof (induction ns arbitrary: s)
  case Nil
  then show ?case by simp
next
  case (Cons x xs)
  from Cons.prems(4) have cur: "source s = Some x" by simp
  show ?case
  proof (cases xs)
    case Nil
    with Cons.prems obtain node where
      node: "fmlookup (sources s) x = Some node" "src_next node = first"
      by (auto split: option.splits)
    show ?thesis
      by (simp add: free_source_loop.simps [of first s] cur node Nil)
  next
    case (Cons y ys)
    with Cons.prems obtain node where
      node: "fmlookup (sources s) x = Some node" "src_next node = y"
      and rest: "ring_path (sources s) first xs"
      by (auto split: option.splits)
    let ?s1 = "s\<lparr>sources := fmdrop x (sources s), frees := frees s @ [Mem_source x],
                 source := Some (src_next node)\<rparr>"
    from Cons.prems have "x \<notin> set xs" and dist: "distinct xs" by simp_all
    with rest have a: "ring_path (sources ?s1) first xs"
      by (simp add: ring_path_fmdrop)
    from node Cons have b: "source ?s1 = Some (hd xs)" by simp
    from Cons.prems Cons have c: "first \<notin> set (tl xs)" and ne: "y \<noteq> first" by auto
    have unfold: "free_source_loop first s = free_source_loop first ?s1"
      using ne by (simp add: free_source_loop.simps [of first s] cur node)
    show ?thesis
      unfolding unfold Cons.IH [OF a dist c b] by simp
  qed
qed

lemma ex_two: "ex_two_snapshots = defaults\<lparr>stats_sum := Some 0, stats_current := Some 2,
    stats_first := Some 1, max_clients := 1, client_arr := [client_defaults],
    stats_heap := fmupd 1 (stats_defaults\<lparr>nxt := Some 2\<rparr>)
       (fmupd 2 (stats_defaults\<lparr>prev := Some 1\<rparr>) (fmupd 1 stats_defaults (fmupd 0 stats_defaults fmempty))), brk := 3\<rparr>"
  by (simp add: ex_two_snapshots_def output_dnssim_new_def stat_timer_cb_def malloc_def then_do_def
      defaults_def calloc_clients_def client_defaults_def Let_def numeral_2_eq_2 numeral_3_eq_3)

text \<open>
  Claim C8, as the code has it.  On an engine whose sum object is live, whose
  snapshots form a chain \<open>cs\<close> from \<^verbatim>\<open>stats_current\<close> through \<^verbatim>\<open>prev\<close> to a null pointer,
  and whose source list is empty or a well-formed ring \<open>ns\<close>, \<^verbatim>\<open>output_dnssim_free\<close>
  returns and frees, in this order: the sum structure first, then every snapshot
  walking from current backward via \<^verbatim>\<open>prev\<close>, then the source nodes, the client array
  and the engine.
\<close>

theorem free_order:
  assumes "stats_sum s = Some sm" and "sm \<in> fmdom' (stats_heap s)" and "sm \<notin> set cs"
    and "stats_chain (stats_heap s) cs" and "distinct cs" and "stats_current s = Some (hd cs)"
    and "source_ring s ns"
  shows "\<exists>s'. output_dnssim_free s = Inr s'
           \<and> frees s' = frees s @ [Mem_stats sm] @ map Mem_stats cs @ map Mem_source ns
                          @ [Mem_client_arr, Mem_self]"
proof -
  from assms(2) obtain st where st: "fmlookup (stats_heap s) sm = Some st"
    by (auto simp add: fmlookup_dom'_iff)
  let ?s1 = "s\<lparr>stats_heap := fmdrop sm (stats_heap s), frees := frees s @ [Mem_stats sm]\<rparr>"
  from st assms(1) have one: "free_stats s (stats_sum s) = Inr ?s1"
    by (simp add: free_stats_def)
  from assms(3,4) have a: "stats_chain (stats_heap ?s1) cs"
    by (simp add: stats_chain_fmdrop)
  from assms(6) have b: "stats_current ?s1 = Some (hd cs)" by simp
  note two = free_stats_loop_chain [OF a assms(5) b]
  let ?s2 = "?s1\<lparr>stats_heap := fold fmdrop cs (stats_heap ?s1),
                  frees := frees ?s1 @ map Mem_stats cs, stats_current := None\<rparr>"
  show ?thesis
  proof (cases ns)
    case Nil
    with assms(7) have "source s = None" by (simp add: source_ring_def)
    with one two Nil show ?thesis
      by (simp add: output_dnssim_free_def then_do_def)
  next
    case (Cons x xs)
    with assms(7) have src: "source s = Some x" and d: "distinct ns"
      and rp: "ring_path (sources s) x ns"
      by (simp_all add: source_ring_def)
    from d Cons have c: "x \<notin> set (tl ns)" by simp
    from rp have rp2: "ring_path (sources ?s2) x ns" by simp
    from src Cons have src2: "source ?s2 = Some (hd ns)" by simp
    note three = free_source_loop_ring [OF rp2 d c src2]
    from one two three src show ?thesis
      by (simp add: output_dnssim_free_def then_do_def)
  qed
qed

theorem free_order_witness:
  "stats_sum ex_two_snapshots = Some 0 \<and> 0 \<in> fmdom' (stats_heap ex_two_snapshots)
   \<and> 0 \<notin> set [2, Suc 0] \<and> stats_chain (stats_heap ex_two_snapshots) [2, 1]
   \<and> distinct [2 :: nat, 1] \<and> stats_current ex_two_snapshots = Some (hd [2, 1])
   \<and> source_ring ex_two_snapshots []
   \<and> (\<exists>s'. output_dnssim_free ex_two_snapshots = Inr s'
          \<and> frees s' = frees ex_two_snapshots @ [Mem_stats 0] @ map Mem_stats [2, 1]
                @ map Mem_source [] @ [Mem_client_arr, Mem_self])"
proof -
  have a: "stats_sum ex_two_snapshots = Some 0"
    by (simp add: ex_two defaults_def)
  have b: "0 \<in> fmdom' (stats_heap ex_two_snapshots)"
    by (simp add: ex_two defaults_def)
  have c: "0 \<notin> set [2, Suc 0]" by simp
  have d: "stats_chain (stats_heap ex_two_snapshots) [2, 1]"
    by (simp add: ex_two defaults_def stats_defaults_def)
  have e: "distinct [2 :: nat, 1]" by simp
  have f: "stats_current ex_two_snapshots = Some (hd [2, 1])"
    by (simp add: ex_two defaults_def)
  have g: "source_ring ex_two_snapshots []"
    by (simp add: source_ring_def ex_two defaults_def)
  from free_order [OF a b _ d e f g] a b c d e f g show ?thesis
    by simp
qed

text \<open>
  Claim C8 as stated fails: on the engine with two snapshots the sum (address 0) is
  the first object freed, before the snapshots 2 and 1, not the last.
\<close>

theorem free_order_counterexample:
  "stats_sum ex_two_snapshots = Some 0 \<and> stats_current ex_two_snapshots = Some 2
   \<and> (\<exists>s'. output_dnssim_free ex_two_snapshots = Inr s'
          \<and> frees s' = [Mem_stats 0, Mem_stats 2, Mem_stats 1, Mem_client_arr, Mem_self])
   \<and> \<not> (\<exists>s'. output_dnssim_free ex_two_snapshots = Inr s'
          \<and> frees s' = [Mem_stats 2, Mem_stats 1, Mem_stats 0, Mem_client_arr, Mem_self])"
  by (simp add: ex_two output_dnssim_free_def free_stats_def then_do_def defaults_def
      stats_defaults_def free_stats_loop.simps)

subsection \<open>Ingress\<close>

lemma find_payload_eq:
  "find_payload obj = (if from_payload obj = [] then None else Some (from_payload obj))"
  by (induction obj) (simp_all add: from_payload_def is_payload_def)

lemma find_ip_eq:
  "find_ip cur = (case filter is_ip cur of [] \<Rightarrow> None | ip # rest \<Rightarrow> Some ip)"
  by (induction cur) (simp_all add: is_ip_def)

lemma free_objects_eq:
  "free_objects obj = map (\<lambda>x. Mem_object (obj_addr x)) (filter (\<lambda>x. \<not> is_payload x) obj)"
  by (induction obj) (simp_all add: is_payload_def)

text \<open>
  Claim C4, as the code has it.  For a chain handed to \<^verbatim>\<open>_receive\<close>: if it has no
  PAYLOAD object, or no IP or IP6 object at or past the first PAYLOAD, then
  \<^verbatim>\<open>discarded\<close> (and \<^verbatim>\<open>processed\<close>) go up by one, no request is created and nothing is
  freed.  Otherwise the non-payload objects of the chain are freed exactly when
  \<^verbatim>\<open>free_after_use\<close> is set, whether or not the client key is in range; then a key
  \<open>\<ge> max_clients\<close> increments \<^verbatim>\<open>discarded\<close> and creates no request, and a key in range
  invokes the \<^verbatim>\<open>create_request\<close> hook on the client slot and the payload.
\<close>

theorem receive_spec:
  fixes s :: dnssim and obj :: "core_object list"
  defines "s1 \<equiv> s\<lparr>processed := processed s + 1\<rparr>"
  defines "s2 \<equiv> s\<lparr>processed := processed s + 1,
                   frees := frees s @ (if free_after_use s
                      then map (\<lambda>x. Mem_object (obj_addr x)) (filter (\<lambda>x. \<not> is_payload x) obj)
                      else [])\<rparr>"
  assumes "obj \<noteq> []"
  shows "((\<forall>x \<in> set obj. \<not> is_payload x) \<or> (\<forall>x \<in> set (from_payload obj). \<not> is_ip x)
            \<longrightarrow> receive create_request s obj = Inr (s1\<lparr>discarded := discarded s + 1\<rparr>))
       \<and> (\<forall>ip rest. filter is_ip (from_payload obj) = ip # rest \<longrightarrow>
             (max_clients s \<le> ucast (extract_client ip)
                \<longrightarrow> receive create_request s obj = Inr (s2\<lparr>discarded := discarded s + 1\<rparr>))
           \<and> (ucast (extract_client ip) < max_clients s
                \<longrightarrow> receive create_request s obj
                      = create_request s2 (unat (extract_client ip))
                          (obj_addr (hd (from_payload obj)))))"
proof (intro conjI impI allI)
  assume "(\<forall>x \<in> set obj. \<not> is_payload x) \<or> (\<forall>x \<in> set (from_payload obj). \<not> is_ip x)"
  then have "from_payload obj = [] \<or> filter is_ip (from_payload obj) = []"
    by (auto simp add: from_payload_def filter_empty_conv)
  then show "receive create_request s obj = Inr (s1\<lparr>discarded := discarded s + 1\<rparr>)"
    using assms(3) by (auto simp add: receive_def find_payload_eq find_ip_eq s1_def)
next
  fix ip rest
  assume ip: "filter is_ip (from_payload obj) = ip # rest"
  then have ne: "from_payload obj \<noteq> []" by auto
  {
    assume "max_clients s \<le> ucast (extract_client ip)"
    then show "receive create_request s obj = Inr (s2\<lparr>discarded := discarded s + 1\<rparr>)"
      using assms(3) ip ne
      by (simp add: receive_def find_payload_eq find_ip_eq s2_def free_objects_eq Let_def)
  }
  {
    assume "ucast (extract_client ip) < max_clients s"
    then have "\<not> max_clients s \<le> ucast (extract_client ip)" by simp
    then show "receive create_request s obj
                 = create_request s2 (unat (extract_client ip)) (obj_addr (hd (from_payload obj)))"
      using assms(3) ip ne
      by (simp add: receive_def find_payload_eq find_ip_eq s2_def free_objects_eq Let_def)
  }
qed

lemma replicate_4: "replicate 4 x = [x, x, x, x]"
  by (simp add: numeral_eq_Suc)

lemma ex_engine_eq: "ex_engine = defaults\<lparr>stats_sum := Some 0, stats_current := Some (Suc 0),
    stats_first := Some (Suc 0), max_clients := 4,
    client_arr := [client_defaults, client_defaults, client_defaults, client_defaults],
    stats_heap := fmupd (Suc 0) stats_defaults (fmupd 0 stats_defaults fmempty), brk := 20\<rparr>"
  by (simp add: ex_engine_def output_dnssim_new_def malloc_def then_do_def
      defaults_def calloc_clients_def client_defaults_def Let_def replicate_4)

lemma key7: "extract_client \<lparr>obj_addr = 12, obj_type = CORE_OBJECT_IP6, dst = [7, 0, 0, 0, 0, 0, 0, 0, 0, 0, 0, 0, 0, 0, 0, 1]\<rparr> = 7"
  by (simp add: extract_client_def memcpy_u32_def word_rcat_def)

lemma key2: "extract_client \<lparr>obj_addr = 12, obj_type = CORE_OBJECT_IP6, dst = [2, 0, 0, 0, 0, 0, 0, 0, 0, 0, 0, 0, 0, 0, 0, 1]\<rparr> = 2"
  by (simp add: extract_client_def memcpy_u32_def word_rcat_def)

theorem receive_spec_witness:
  "ex_chain [2, 0, 0, 0, 0, 0, 0, 0, 0, 0, 0, 0, 0, 0, 0, 1] \<noteq> []
   \<and> max_clients ex_engine = 4
   \<and> receive (\<lambda>s cl pl. create_request_udp s cl pl ex_env) ex_engine
         (ex_chain [2, 0, 0, 0, 0, 0, 0, 0, 0, 0, 0, 0, 0, 0, 0, 1])
       = create_request_udp (ex_engine\<lparr>processed := 1\<rparr>) 2 10 ex_env"
proof -
  let ?d = "[2, 0, 0, 0, 0, 0, 0, 0, 0, 0, 0, 0, 0, 0, 0, 1] :: 8 word list"
  let ?ip = "\<lparr>obj_addr = 12, obj_type = CORE_OBJECT_IP6, dst = ?d\<rparr>"
  have ne: "ex_chain ?d \<noteq> []"
    by (simp add: ex_chain_def)
  have fp: "from_payload (ex_chain ?d) = ex_chain ?d"
    by (simp add: from_payload_def ex_chain_def is_payload_def)
  have ips: "filter is_ip (from_payload (ex_chain ?d)) = [?ip]"
    by (simp add: fp) (simp add: ex_chain_def is_ip_def)
  have mc: "max_clients ex_engine = 4" and fl: "\<not> free_after_use ex_engine"
    and pr: "processed ex_engine = 0"
    by (simp_all add: ex_engine_eq defaults_def)
  have lt: "ucast (extract_client ?ip) < max_clients ex_engine"
    by (simp add: key2 mc)
  let ?hook = "\<lambda>s cl pl. create_request_udp s cl pl ex_env"
  from receive_spec [OF ne, where s = ex_engine and create_request = ?hook] ips lt
  have "receive ?hook ex_engine (ex_chain ?d)
          = ?hook
              (ex_engine\<lparr>processed := processed ex_engine + 1,
                 frees := frees ex_engine @ (if free_after_use ex_engine
                    then map (\<lambda>x. Mem_object (obj_addr x))
                           (filter (\<lambda>x. \<not> is_payload x) (ex_chain ?d))
                    else [])\<rparr>)
              (unat (extract_client ?ip)) (obj_addr (hd (from_payload (ex_chain ?d))))"
    by blast
  also have "\<dots> = create_request_udp (ex_engine\<lparr>processed := 1\<rparr>) 2 10 ex_env"
    by (simp add: fl pr key2 fp) (simp add: ex_chain_def)
  finally show ?thesis using ne mc by simp
qed

text \<open>
  Claim C4 as stated fails: with \<^verbatim>\<open>free_after_use\<close> set and the client key 7 out of
  range for four clients, the packet is discarded and no request is created, but the
  three non-payload objects of the chain have been freed.
\<close>

theorem receive_counterexample:
  "find_payload (ex_chain [7, 0, 0, 0, 0, 0, 0, 0, 0, 0, 0, 0, 0, 0, 0, 1])
      = Some (ex_chain [7, 0, 0, 0, 0, 0, 0, 0, 0, 0, 0, 0, 0, 0, 0, 1])
   \<and> find_ip (ex_chain [7, 0, 0, 0, 0, 0, 0, 0, 0, 0, 0, 0, 0, 0, 0, 1])
      = Some \<lparr>obj_addr = 12, obj_type = CORE_OBJECT_IP6,
               dst = [7, 0, 0, 0, 0, 0, 0, 0, 0, 0, 0, 0, 0, 0, 0, 1]\<rparr>
   \<and> extract_client \<lparr>obj_addr = 12, obj_type = CORE_OBJECT_IP6,
               dst = [7, 0, 0, 0, 0, 0, 0, 0, 0, 0, 0, 0, 0, 0, 0, 1]\<rparr> = 7
   \<and> max_clients (ex_engine\<lparr>free_after_use := True\<rparr>) = 4
   \<and> frees (ex_engine\<lparr>free_after_use := True\<rparr>) = []
   \<and> (\<exists>s'. receive (\<lambda>s cl pl. create_request_udp s cl pl ex_env)
             (ex_engine\<lparr>free_after_use := True\<rparr>)
             (ex_chain [7, 0, 0, 0, 0, 0, 0, 0, 0, 0, 0, 0, 0, 0, 0, 1]) = Inr s'
          \<and> discarded s' = 1 \<and> requests s' = Map.empty
          \<and> frees s' = [Mem_object 11, Mem_object 12, Mem_object 13])"
  by (simp add: key7) (simp add: ex_chain_def receive_def ex_engine_eq defaults_def key7)

subsection \<open>Source ring\<close>

lemma ring_path_fmupd:
  "x \<notin> set ns \<Longrightarrow> ring_path (fmupd x v h) first ns = ring_path h first ns"
  by (induction h first ns rule: ring_path.induct) (auto split: option.splits)

lemma node_addrs_fmupd:
  "x \<notin> set ns \<Longrightarrow> node_addrs (fmupd x v h) ns = node_addrs h ns"
  by (induction ns) (auto simp add: node_addrs_def)

lemma node_addrs_Cons:
  "node_addrs h (x # xs)
     = (case fmlookup h x of None \<Rightarrow> 0 | Some node \<Rightarrow> src_addr node) # node_addrs h xs"
  by (simp add: node_addrs_def)

lemma bind_empty:
  assumes "source s = None" and "uv_ip6_addr ip = Some a"
  shows "output_dnssim_bind uv_ip6_addr s ip
           = Inr (0, s\<lparr>brk := Suc (brk s),
                       sources := fmupd (brk s) \<lparr>src_next = brk s, src_addr = a\<rparr> (sources s),
                       source := Some (brk s)\<rparr>)"
  using assms by (simp add: output_dnssim_bind_def malloc_def)

lemma bind_after_cursor:
  assumes "source s = Some cur" and "fmlookup (sources s) cur = Some node"
    and "uv_ip6_addr ip = Some a"
  shows "output_dnssim_bind uv_ip6_addr s ip
           = Inr (0, s\<lparr>brk := Suc (brk s),
                       sources := fmupd cur (node\<lparr>src_next := brk s\<rparr>)
                                    (fmupd (brk s) \<lparr>src_next = src_next node, src_addr = a\<rparr>
                                       (sources s))\<rparr>)"
  using assms by (simp add: output_dnssim_bind_def malloc_def)

lemma ring_path_head:
  "ring_path h first (x # xs) \<Longrightarrow> \<exists>node. fmlookup h x = Some node"
  by (cases xs) (auto split: option.splits)

lemma ring_insert:
  assumes rp: "ring_path h c (c # rest)" and d: "distinct (c # rest)"
    and fresh: "new \<notin> set (c # rest)" and node: "fmlookup h c = Some node"
  shows "ring_path (fmupd c (node\<lparr>src_next := new\<rparr>)
                      (fmupd new \<lparr>src_next = src_next node, src_addr = a\<rparr> h))
           c (c # new # rest)"
proof (cases rest)
  case Nil
  with rp node fresh show ?thesis by auto
next
  case (Cons y ys)
  with rp node have nx: "src_next node = y" and tl: "ring_path h c (y # ys)"
    by simp_all
  from d Cons have "c \<notin> set (y # ys)" by simp
  moreover from fresh Cons have "new \<notin> set (y # ys)" by simp
  ultimately have "ring_path (fmupd c (node\<lparr>src_next := new\<rparr>)
                      (fmupd new \<lparr>src_next = src_next node, src_addr = a\<rparr> h)) c (y # ys)"
    using tl by (simp add: ring_path_fmupd)
  with Cons nx fresh show ?thesis by auto
qed

lemma bind_ring_step:
  assumes ring: "source_ring s (c # rest)" and lt: "\<forall>n \<in> set (c # rest). n < brk s"
    and parse: "uv_ip6_addr ip = Some a"
  shows "\<exists>s'. output_dnssim_bind uv_ip6_addr s ip = Inr (0, s')
           \<and> source_ring s' (c # brk s # rest)
           \<and> (\<forall>n \<in> set (c # brk s # rest). n < brk s')
           \<and> node_addrs (sources s') (c # brk s # rest)
               = hd (node_addrs (sources s) (c # rest)) # a # node_addrs (sources s) rest"
proof -
  from ring have src: "source s = Some c" and d: "distinct (c # rest)"
    and rp: "ring_path (sources s) c (c # rest)"
    by (simp_all add: source_ring_def)
  from ring_path_head [OF rp] obtain node where node: "fmlookup (sources s) c = Some node"
    by blast
  from lt have fresh: "brk s \<notin> set (c # rest)" by auto
  let ?h = "fmupd c (node\<lparr>src_next := brk s\<rparr>)
              (fmupd (brk s) \<lparr>src_next = src_next node, src_addr = a\<rparr> (sources s))"
  let ?s' = "s\<lparr>brk := Suc (brk s), sources := ?h\<rparr>"
  have run: "output_dnssim_bind uv_ip6_addr s ip = Inr (0, ?s')"
    using src node parse by (rule bind_after_cursor)
  have rp': "ring_path ?h c (c # brk s # rest)"
    by (rule ring_insert [OF rp d fresh node])
  from d fresh have d': "distinct (c # brk s # rest)" by auto
  from src rp' d' have ring': "source_ring ?s' (c # brk s # rest)"
    by (simp add: source_ring_def)
  from lt have lt': "\<forall>n \<in> set (c # brk s # rest). n < brk ?s'" by auto
  from d fresh have nin: "c \<notin> set rest" "brk s \<notin> set rest" and ne: "c \<noteq> brk s" by auto
  from nin have "node_addrs ?h rest = node_addrs (sources s) rest"
    by (simp add: node_addrs_fmupd)
  with ne node have addrs: "node_addrs (sources ?s') (c # brk s # rest)
               = hd (node_addrs (sources s) (c # rest)) # a # node_addrs (sources s) rest"
    by (simp add: node_addrs_Cons)
  from run ring' lt' addrs show ?thesis by blast
qed

lemma bind_all_ring:
  assumes "source_ring s (c # rest)" and "\<forall>n \<in> set (c # rest). n < brk s"
    and "\<forall>ip \<in> set ips. uv_ip6_addr ip \<noteq> None"
  shows "\<exists>s' ns. bind_all uv_ip6_addr s ips = Inr s'
           \<and> source_ring s' (c # ns)
           \<and> length ns = length ips + length rest
           \<and> node_addrs (sources s') (c # ns)
               = hd (node_addrs (sources s) (c # rest))
                   # rev (map (\<lambda>ip. the (uv_ip6_addr ip)) ips) @ node_addrs (sources s) rest"
  using assms
proof (induction ips arbitrary: s rest)
  case Nil
  have "node_addrs (sources s) (c # rest)
          = hd (node_addrs (sources s) (c # rest)) # node_addrs (sources s) rest"
    by (simp add: node_addrs_def)
  with Nil.prems(1) show ?case
    by (intro exI [of _ s] exI [of _ rest]) simp
next
  case (Cons ip ips)
  from Cons.prems(3) obtain a where a: "uv_ip6_addr ip = Some a" by auto
  from bind_ring_step [where uv_ip6_addr = uv_ip6_addr, OF Cons.prems(1,2) a] obtain s1 where
    s1: "output_dnssim_bind uv_ip6_addr s ip = Inr (0, s1)"
      "source_ring s1 (c # brk s # rest)" "\<forall>n \<in> set (c # brk s # rest). n < brk s1"
      "node_addrs (sources s1) (c # brk s # rest)
         = hd (node_addrs (sources s) (c # rest)) # a # node_addrs (sources s) rest"
    by blast
  from Cons.prems(3) have "\<forall>ip \<in> set ips. uv_ip6_addr ip \<noteq> None" by simp
  from Cons.IH [OF s1(2,3) this] obtain s' ns where
    s': "bind_all uv_ip6_addr s1 ips = Inr s'" "source_ring s' (c # ns)"
      "length ns = length ips + length (brk s # rest)"
      "node_addrs (sources s') (c # ns)
         = hd (node_addrs (sources s1) (c # brk s # rest))
             # rev (map (\<lambda>ip. the (uv_ip6_addr ip)) ips) @ node_addrs (sources s1) (brk s # rest)"
    by blast
  from s1(4) have hd1: "hd (node_addrs (sources s1) (c # brk s # rest))
                         = hd (node_addrs (sources s) (c # rest))"
    and tl1: "node_addrs (sources s1) (brk s # rest) = a # node_addrs (sources s) rest"
    by (simp_all add: node_addrs_def)
  have run: "bind_all uv_ip6_addr s (ip # ips) = Inr s'"
    by (simp add: s1(1) s'(1) then_do_def)
  from s'(3) have len: "length ns = length (ip # ips) + length rest" by simp
  from s'(4) hd1 tl1 a have "node_addrs (sources s') (c # ns)
         = hd (node_addrs (sources s) (c # rest))
             # rev (map (\<lambda>ip. the (uv_ip6_addr ip)) (ip # ips)) @ node_addrs (sources s) rest"
    by simp
  with run s'(2) len show ?case by blast
qed

lemma rotation_path:
  "ring_path h first ns \<Longrightarrow>
     source_rotation h (hd ns) (length ns + m) = node_addrs h ns @ source_rotation h first m"
  by (induction h first ns rule: ring_path.induct)
     (auto simp add: node_addrs_def split: option.splits)

lemma rotation_rounds:
  assumes "ring_path h c (c # ns)"
  shows "source_rotation h c (k * length (c # ns)) = concat (replicate k (node_addrs h (c # ns)))"
proof (induction k)
  case 0
  then show ?case by simp
next
  case (Suc k)
  have "Suc k * length (c # ns) = length (c # ns) + k * length (c # ns)"
    by simp
  then have "source_rotation h c (Suc k * length (c # ns))
          = source_rotation h (hd (c # ns)) (length (c # ns) + k * length (c # ns))"
    by (simp only: list.sel)
  also have "\<dots> = node_addrs h (c # ns) @ source_rotation h c (k * length (c # ns))"
    by (rule rotation_path [OF assms])
  finally show ?case using Suc by simp
qed


lemma create_query_udp_binds:
  assumes "requests s req = Some r" and "source s = Some cur"
    and "fmlookup (sources s) cur = Some node"
    and "0 \<le> uv_udp_init_ret e" and "0 \<le> uv_udp_bind_ret e" and "0 \<le> uv_udp_try_send_ret e"
    and "0 \<le> uv_udp_recv_start_ret e"
  shows "create_query_udp s req e
           = Inr (0, s\<lparr>brk := Suc (Suc (brk s)),
                       handles := (handles s)(Suc (brk s) \<mapsto>
                          \<lparr>h_type = UV_UDP, h_data = Some req, h_close_cb = None,
                           h_active = True, h_bound = Some (src_addr node)\<rparr>),
                       requests := (requests s)(req \<mapsto>
                          r\<lparr>qry := \<lparr>q_addr = brk s, q_transport = OUTPUT_DNSSIM_TRANSPORT_UDP,
                                     q_handle = Suc (brk s)\<rparr> # qry r\<rparr>),
                       source := Some (src_next node),
                       ongoing := ongoing s + 1\<rparr>)"
  using assms
  by (simp add: create_query_udp_def malloc_def bind_to_source_def then_do_def Let_def)

text \<open>
  Claim C5, as the code has it.  A bind with a valid literal on an empty list makes
  the new node point to itself and puts the cursor on it; on a non-empty list it
  inserts the new node immediately after the cursor and leaves the cursor where it
  is.  A successful query creation binds its endpoint to the address under the
  cursor and advances the cursor to \<^verbatim>\<open>next\<close>.  So after binding \<open>ip0\<close> and then \<open>ips\<close>
  to an engine without sources, query creation visits, round after round, the source
  bound first and then the other sources in the reverse of the order they were
  bound, the most recently bound one first.
\<close>

theorem bind_rotation:
  "(source t = None \<and> uv_ip6_addr ip = Some a \<longrightarrow>
      output_dnssim_bind uv_ip6_addr t ip
        = Inr (0, t\<lparr>brk := Suc (brk t),
                    sources := fmupd (brk t) \<lparr>src_next = brk t, src_addr = a\<rparr> (sources t),
                    source := Some (brk t)\<rparr>))
   \<and> (source t = Some cur \<and> fmlookup (sources t) cur = Some node \<and> uv_ip6_addr ip = Some a \<longrightarrow>
      output_dnssim_bind uv_ip6_addr t ip
        = Inr (0, t\<lparr>brk := Suc (brk t),
                    sources := fmupd cur (node\<lparr>src_next := brk t\<rparr>)
                                 (fmupd (brk t) \<lparr>src_next = src_next node, src_addr = a\<rparr>
                                    (sources t))\<rparr>))
   \<and> (requests t req = Some r \<and> source t = Some cur \<and> fmlookup (sources t) cur = Some node
        \<and> 0 \<le> uv_udp_init_ret e \<and> 0 \<le> uv_udp_bind_ret e \<and> 0 \<le> uv_udp_try_send_ret e
        \<and> 0 \<le> uv_udp_recv_start_ret e \<longrightarrow>
      (\<exists>t'. create_query_udp t req e = Inr (0, t')
         \<and> (case handles t' (Suc (brk t)) of None \<Rightarrow> None | Some h \<Rightarrow> h_bound h)
             = Some (src_addr node)
         \<and> source t' = Some (src_next node) \<and> sources t' = sources t)
      \<and> source_rotation (sources t) cur (Suc n)
          = src_addr node # source_rotation (sources t) (src_next node) n)
   \<and> (source s = None \<and> uv_ip6_addr ip0 = Some a0 \<and> (\<forall>ip \<in> set ips. uv_ip6_addr ip \<noteq> None) \<longrightarrow>
      (\<exists>s'. bind_all uv_ip6_addr s (ip0 # ips) = Inr s'
         \<and> source s' = Some (brk s)
         \<and> (\<forall>k. source_rotation (sources s') (brk s) (k * Suc (length ips))
                 = concat (replicate k (a0 # rev (map (\<lambda>ip. the (uv_ip6_addr ip)) ips))))))"
proof (intro conjI impI)
  assume "source t = None \<and> uv_ip6_addr ip = Some a"
  then show "output_dnssim_bind uv_ip6_addr t ip
        = Inr (0, t\<lparr>brk := Suc (brk t),
                    sources := fmupd (brk t) \<lparr>src_next = brk t, src_addr = a\<rparr> (sources t),
                    source := Some (brk t)\<rparr>)"
    by (simp add: bind_empty)
next
  assume "source t = Some cur \<and> fmlookup (sources t) cur = Some node \<and> uv_ip6_addr ip = Some a"
  then show "output_dnssim_bind uv_ip6_addr t ip
        = Inr (0, t\<lparr>brk := Suc (brk t),
                    sources := fmupd cur (node\<lparr>src_next := brk t\<rparr>)
                                 (fmupd (brk t) \<lparr>src_next = src_next node, src_addr = a\<rparr>
                                    (sources t))\<rparr>)"
    by (simp add: bind_after_cursor)
next
  assume a: "requests t req = Some r \<and> source t = Some cur \<and> fmlookup (sources t) cur = Some node
        \<and> 0 \<le> uv_udp_init_ret e \<and> 0 \<le> uv_udp_bind_ret e \<and> 0 \<le> uv_udp_try_send_ret e
        \<and> 0 \<le> uv_udp_recv_start_ret e"
  then have "create_query_udp t req e
           = Inr (0, t\<lparr>brk := Suc (Suc (brk t)),
                       handles := (handles t)(Suc (brk t) \<mapsto>
                          \<lparr>h_type = UV_UDP, h_data = Some req, h_close_cb = None,
                           h_active = True, h_bound = Some (src_addr node)\<rparr>),
                       requests := (requests t)(req \<mapsto>
                          r\<lparr>qry := \<lparr>q_addr = brk t, q_transport = OUTPUT_DNSSIM_TRANSPORT_UDP,
                                     q_handle = Suc (brk t)\<rparr> # qry r\<rparr>),
                       source := Some (src_next node),
                       ongoing := ongoing t + 1\<rparr>)"
    by (simp add: create_query_udp_binds)
  then show "\<exists>t'. create_query_udp t req e = Inr (0, t')
         \<and> (case handles t' (Suc (brk t)) of None \<Rightarrow> None | Some h \<Rightarrow> h_bound h)
             = Some (src_addr node)
         \<and> source t' = Some (src_next node) \<and> sources t' = sources t"
    by simp
  from a show "source_rotation (sources t) cur (Suc n)
          = src_addr node # source_rotation (sources t) (src_next node) n"
    by simp
next
  assume a: "source s = None \<and> uv_ip6_addr ip0 = Some a0 \<and> (\<forall>ip \<in> set ips. uv_ip6_addr ip \<noteq> None)"
  let ?c = "brk s"
  let ?s1 = "s\<lparr>brk := Suc (brk s),
                sources := fmupd (brk s) \<lparr>src_next = brk s, src_addr = a0\<rparr> (sources s),
                source := Some (brk s)\<rparr>"
  from a have first: "output_dnssim_bind uv_ip6_addr s ip0 = Inr (0, ?s1)"
    by (simp add: bind_empty)
  have ring1: "source_ring ?s1 (?c # [])"
    by (simp add: source_ring_def)
  have lt1: "\<forall>n \<in> set (?c # []). n < brk ?s1"
    by simp
  from a have all: "\<forall>ip \<in> set ips. uv_ip6_addr ip \<noteq> None" by simp
  from bind_all_ring [OF ring1 lt1 all] obtain s' ns where
    s': "bind_all uv_ip6_addr ?s1 ips = Inr s'" "source_ring s' (?c # ns)"
      "length ns = length ips + length ([] :: addr list)"
      "node_addrs (sources s') (?c # ns)
         = hd (node_addrs (sources ?s1) (?c # []))
             # rev (map (\<lambda>ip. the (uv_ip6_addr ip)) ips) @ node_addrs (sources ?s1) []"
    by blast
  have run: "bind_all uv_ip6_addr s (ip0 # ips) = Inr s'"
    by (simp add: first s'(1) then_do_def)
  from s'(2) have cur: "source s' = Some ?c" and rp: "ring_path (sources s') ?c (?c # ns)"
    by (simp_all add: source_ring_def)
  from s'(4) have addrs: "node_addrs (sources s') (?c # ns)
                            = a0 # rev (map (\<lambda>ip. the (uv_ip6_addr ip)) ips)"
    by (simp add: node_addrs_def)
  from s'(3) have len: "length (?c # ns) = Suc (length ips)" by simp
  have "\<forall>k. source_rotation (sources s') ?c (k * Suc (length ips))
                 = concat (replicate k (a0 # rev (map (\<lambda>ip. the (uv_ip6_addr ip)) ips)))"
    using rotation_rounds [OF rp] by (simp only: len addrs) simp
  with run cur show "\<exists>s'. bind_all uv_ip6_addr s (ip0 # ips) = Inr s'
         \<and> source s' = Some (brk s)
         \<and> (\<forall>k. source_rotation (sources s') (brk s) (k * Suc (length ips))
                 = concat (replicate k (a0 # rev (map (\<lambda>ip. the (uv_ip6_addr ip)) ips))))"
    by blast
qed

theorem bind_rotation_witness:
  "source ex_engine = None \<and> ex_parse ''::1'' = Some 1 \<and> brk ex_engine = 20
   \<and> list_all (\<lambda>ip. ex_parse ip \<noteq> None) [''::2'', ''::3'']
   \<and> (\<exists>s'. bind_all ex_parse ex_engine [''::1'', ''::2'', ''::3''] = Inr s'
          \<and> source s' = Some 20
          \<and> source_rotation (sources s') 20 6 = [1, 3, 2, 1, 3, 2])"
proof -
  have a: "source ex_engine = None" and b: "brk ex_engine = 20"
    by (simp_all add: ex_engine_eq defaults_def)
  have c: "ex_parse ''::1'' = Some 1"
    by (simp add: ex_parse_def)
  have d: "\<forall>ip \<in> set [''::2'', ''::3'']. ex_parse ip \<noteq> None"
    by (simp add: ex_parse_def)
  from bind_rotation [where s = ex_engine and uv_ip6_addr = ex_parse and ip0 = "''::1''"
      and ?a0.0 = 1 and ips = "[''::2'', ''::3'']"] a c d
  obtain s' where s': "bind_all ex_parse ex_engine [''::1'', ''::2'', ''::3''] = Inr s'"
    "source s' = Some (brk ex_engine)"
    "\<forall>k. source_rotation (sources s') (brk ex_engine) (k * Suc (length [''::2'', ''::3'']))
           = concat (replicate k (1 # rev (map (\<lambda>ip. the (ex_parse ip)) [''::2'', ''::3''])))"
    by blast
  from s'(3) have "source_rotation (sources s') (brk ex_engine) (2 * Suc (length [''::2'', ''::3'']))
           = concat (replicate 2 (1 # rev (map (\<lambda>ip. the (ex_parse ip)) [''::2'', ''::3''])))"
    by blast
  moreover have "2 * Suc (length [''::2'', ''::3'']) = (6 :: nat)"
    by simp
  moreover have "concat (replicate 2 (1 # rev (map (\<lambda>ip. the (ex_parse ip)) [''::2'', ''::3''])))
                   = [1, 3, 2, 1, 3, 2 :: sockaddr]"
    by (simp add: ex_parse_def numeral_2_eq_2)
  ultimately have "source_rotation (sources s') 20 6 = [1, 3, 2, 1, 3, 2]"
    by (simp only: b)
  with s'(1,2) a b c d show ?thesis by auto
qed

text \<open>
  Claim C5 as stated fails: after binding \<open>::1\<close>, \<open>::2\<close> and \<open>::3\<close> in this order the
  cursor is on the node of \<open>::1\<close> and three query creations bind to \<open>::1\<close>, \<open>::3\<close>,
  \<open>::2\<close>, which is not the order of insertion.
\<close>

lemma ex_bound_engine:
  "bind_all ex_parse ex_engine [''::1'', ''::2'', ''::3'']
     = Inr (ex_engine\<lparr>brk := 23, source := Some 20,
              sources := fmupd 20 \<lparr>src_next = 22, src_addr = 1\<rparr>
                (fmupd 22 \<lparr>src_next = 21, src_addr = 3\<rparr>
                  (fmupd 21 \<lparr>src_next = 20, src_addr = 2\<rparr> fmempty))\<rparr>)"
  apply (simp add: ex_engine_eq defaults_def ex_parse_def output_dnssim_bind_def malloc_def then_do_def)
  apply (rule fmap_ext)
  apply simp
  done

theorem bind_rotation_counterexample:
  "\<exists>s'. bind_all ex_parse ex_engine [''::1'', ''::2'', ''::3''] = Inr s'
      \<and> source s' = Some 20
      \<and> source_rotation (sources s') 20 3 = [1, 3, 2]
      \<and> source_rotation (sources s') 20 3 \<noteq> [1, 2, 3]"
  by (simp only: ex_bound_engine) (simp add: numeral_3_eq_3)

subsection \<open>Counters\<close>

text \<open>
  Claim C7 fails on the code.  A fresh engine admits one packet and \<^verbatim>\<open>uv_udp_try_send\<close>
  fails: the query is already linked to the request, \<^verbatim>\<open>_create_query_udp\<close> returns
  before \<^verbatim>\<open>ongoing++\<close>, and the failure epilogue closes the request, which queues the
  close callback of the endpoint (address 23).  No timeout exists.  Running that
  callback drains the loop and frees the request, and it decrements \<^verbatim>\<open>ongoing\<close>,
  which wraps around from 0: the counter ends at \<open>2^64 - 1\<close>, not at 0.
\<close>

theorem ongoing_underflow_on_send_failure:
  "\<exists>s1 s2. receive (\<lambda>s cl pl. create_request_udp s cl pl ex_env_send_fails) ex_engine ex_packet
              = Inr s1
      \<and> ongoing s1 = 0 \<and> discarded s1 = 1 \<and> closing_handles s1 = [23]
      \<and> run_close_cb s1 23 = Inr s2
      \<and> closing_handles s2 = [] \<and> requests s2 = Map.empty \<and> handles s2 = Map.empty
      \<and> ongoing s2 = - 1 \<and> ongoing s2 \<noteq> 0"
  by (simp add: ex_packet_def ex_chain_def receive_def ex_engine_eq defaults_def key2
       create_request_udp_def create_query_udp_def bind_to_source_def malloc_def
      count_total_def start_timeout_def
      then_do_def client_update_def stats_update_def ex_env_def ex_env_send_fails_def Let_def
      client_defaults_def stats_defaults_def create_request_failure_def close_request_def
      close_query_def close_query_udp_def uv_udp_recv_stop_def uv_stop_def uv_close_def
      maybe_free_request_def run_close_cb_def close_query_udp_cb_def)

text \<open>
  Claim C6 fails on the code.  \<^verbatim>\<open>output_dnssim_new\<close> takes the sum and the first
  snapshot from \<^verbatim>\<open>malloc\<close> and never assigns \<^verbatim>\<open>_stats_defaults\<close> to them (as
  \<^verbatim>\<open>_stat_timer_cb\<close> does for every later snapshot).  When the storage of the sum holds
  a total of 5 and the storage of the snapshot holds zeros, the engine starts with a
  chain of the one snapshot at address 1, whose total is 0, and a sum whose total
  is 5.
\<close>

theorem new_leaves_statistics_uninitialised:
  "\<exists>s. output_dnssim_new 1 (stats_defaults\<lparr>total_n := 5\<rparr>) stats_defaults 0 = Inr s
      \<and> stats_sum s = Some 0 \<and> stats_current s = Some 1 \<and> stats_first s = Some 1
      \<and> stats_chain (stats_heap s) [1]
      \<and> map_option total_n (fmlookup (stats_heap s) 0) = Some 5
      \<and> map_option total_n (fmlookup (stats_heap s) 1) = Some 0
      \<and> sum_list (map (\<lambda>a. case fmlookup (stats_heap s) a of None \<Rightarrow> 0 | Some st \<Rightarrow> total_n st) [1])
           \<noteq> (case fmlookup (stats_heap s) 0 of None \<Rightarrow> 0 | Some st \<Rightarrow> total_n st)"
  by (simp add: output_dnssim_new_def malloc_def then_do_def defaults_def Let_def
      stats_defaults_def calloc_clients_def)

end
